theory Spec2Isabelle
  imports Complex_Main "HOL-Library.Word"
begin

section \<open>JavaScript values used by server.js\<close>

text \<open>
  A \<open>Buffer\<close> is a sequence of bytes. A value that the source treats as
  "a number or nothing" (\<open>parseInt(..)\<close>, \<open>undefined\<close>) is an \<open>int option\<close>:
  \<open>None\<close> stands for \<open>undefined\<close> and for \<open>NaN\<close>, which are both falsy and both
  replaced by the default in \<open>v || d\<close>. Fractional numbers are outside this type.
  An optional text field of a request is a \<open>string option\<close>.
\<close>

type_synonym buffer = "8 word list"

definition truthy :: "int option \<Rightarrow> bool" where
  "truthy v = (case v of None \<Rightarrow> False | Some n \<Rightarrow> n \<noteq> 0)"

definition truthy_str :: "string option \<Rightarrow> bool" where
  "truthy_str v = (case v of None \<Rightarrow> False | Some s \<Rightarrow> s \<noteq> [])"

text \<open>\<open>v || d\<close> on numbers.\<close>

definition or_else :: "int option \<Rightarrow> int \<Rightarrow> int" where
  "or_else v d = (case v of None \<Rightarrow> d | Some n \<Rightarrow> if n = 0 then d else n)"

text \<open>
  \<open>String.prototype.toLowerCase\<close>. A string is modelled by its bytes, and only the
  ASCII capitals are mapped; every other byte is left as it is. JavaScript also
  lower-cases capitals outside ASCII. For a name that contains such a letter the
  model therefore differs from the code in the spelling of the name where it is
  echoed (the unsupported-format message, the file name, the type), and in
  nothing else: no character outside ASCII lower-cases to a letter of
  \<open>jpeg\<close>, \<open>jpg\<close>, \<open>png\<close>, \<open>webp\<close>, \<open>avif\<close> or \<open>tiff\<close>, so the format switch
  takes the same case in the model and in the code.
\<close>

definition lower_char :: "char \<Rightarrow> char" where
  "lower_char c =
     (case map_of (zip ''ABCDEFGHIJKLMNOPQRSTUVWXYZ'' ''abcdefghijklmnopqrstuvwxyz'') c of
        Some d \<Rightarrow> d
      | None \<Rightarrow> c)"

definition toLowerCase :: "string \<Rightarrow> string" where
  "toLowerCase s = map lower_char s"

text \<open>
  The result of a JavaScript division of two non-negative integers: it never
  throws; a zero divisor gives \<open>Infinity\<close>, or \<open>NaN\<close> for \<open>0 / 0\<close>.
\<close>

datatype jsnum = Fin rat | Infinity | NaN

definition js_div :: "nat \<Rightarrow> nat \<Rightarrow> jsnum" where
  "js_div a b =
     (if b = 0 then (if a = 0 then NaN else Infinity)
      else Fin (rat_of_nat a / rat_of_nat b))"

text \<open>\<open>x > k\<close> for a division result and a finite constant.\<close>

definition js_gt :: "jsnum \<Rightarrow> rat \<Rightarrow> bool" where
  "js_gt x k = (case x of Fin r \<Rightarrow> r > k | Infinity \<Rightarrow> True | NaN \<Rightarrow> False)"


section \<open>The image codec and the other collaborators\<close>

text \<open>
  The sharp library, the uuid generator, the file system and the built-in number
  functions are not part of the repository. They are the fields of an environment
  \<open>E\<close>, and every theorem holds for every environment. A sharp instance is a
  mutable object: each pipeline method returns the new state \<open>'p\<close> of the
  instance, or the message of the error it throws.
\<close>

datatype fit = Inside | Fill

record resizeOptions =
  r_width :: "int option"
  r_height :: "int option"
  r_fit :: fit
  withoutEnlargement :: bool

datatype format = JPEG | PNG | WEBP | AVIF | TIFF

record encodeOptions =
  e_quality :: int
  e_progressive :: "bool option"

record metadata =
  m_width :: nat
  m_height :: nat
  m_format :: string
  m_hasAlpha :: "bool option"

record dominant =
  d_r :: int
  d_g :: int
  d_b :: int

text \<open>
  The settings object of a batch request. \<open>JSON.parse\<close> either throws, or
  returns a value with no \<open>outputFormat\<close> property to read (\<open>null\<close>, a number,
  a string, an array), or returns an object; the fields of the object are taken
  to have the types the API documents.
\<close>

record settings =
  s_outputFormat :: "string option"
  s_quality :: "int option"
  s_width :: "int option"
  s_height :: "int option"
  s_maintainAspectRatio :: "bool option"
  s_targetSizeKB :: "int option"
  s_preset :: "string option"

datatype parsed = Throws | NotAnObject | Object settings

record ('p, 'w) env =
  sharp :: "buffer \<Rightarrow> string + 'p"
  resize :: "resizeOptions \<Rightarrow> 'p \<Rightarrow> string + 'p"
  encoder :: "format \<Rightarrow> encodeOptions \<Rightarrow> 'p \<Rightarrow> string + 'p"
  toBuffer :: "'p \<Rightarrow> string + buffer"
  metadata_of :: "'p \<Rightarrow> string + metadata"
  stats :: "'p \<Rightarrow> string + dominant"
  uuidv4 :: "'w \<Rightarrow> string \<times> 'w"
  writeFile :: "string \<Rightarrow> buffer \<Rightarrow> 'w \<Rightarrow> string + 'w"
  parseInt :: "string \<Rightarrow> int option"
  toFixed2 :: "rat \<Rightarrow> rat"
  JSON_parse :: "string \<Rightarrow> parsed"


section \<open>convertImage\<close>

record options =
  outputFormat :: string
  quality :: "int option"
  width :: "int option"
  height :: "int option"
  maintainAspectRatio :: bool
  targetSizeKB :: "int option"

text \<open>Lines 132-140: the resize stage.\<close>

definition resizeStage :: "('p, 'w) env \<Rightarrow> options \<Rightarrow> 'p \<Rightarrow> string + 'p" where
  "resizeStage E opts p =
     (if truthy (width opts) \<or> truthy (height opts)
      then resize E
             \<lparr>r_width = width opts, r_height = height opts,
              r_fit = (if maintainAspectRatio opts \<noteq> False then Inside else Fill),
              withoutEnlargement = True\<rparr> p
      else Inr p)"

text \<open>\<open>processor.<format>(opts).toBuffer()\<close>: set the output options, run the pipeline.\<close>

definition encodeToBuffer ::
  "('p, 'w) env \<Rightarrow> format \<Rightarrow> encodeOptions \<Rightarrow> 'p \<Rightarrow> string + ('p \<times> buffer)" where
  "encodeToBuffer E f eo p =
     (case encoder E f eo p of
        Inl e \<Rightarrow> Inl e
      | Inr p' \<Rightarrow> (case toBuffer E p' of Inl e \<Rightarrow> Inl e | Inr b \<Rightarrow> Inr (p', b)))"

text \<open>Lines 143-173: the first encode, a switch on the lower-cased format name.\<close>

definition encodeStage :: "('p, 'w) env \<Rightarrow> options \<Rightarrow> 'p \<Rightarrow> string + ('p \<times> buffer)" where
  "encodeStage E opts p =
     (let f = toLowerCase (outputFormat opts); q = or_else (quality opts) 80 in
      if f = ''jpeg'' \<or> f = ''jpg''
        then encodeToBuffer E JPEG \<lparr>e_quality = q, e_progressive = Some True\<rparr> p
      else if f = ''png''
        then encodeToBuffer E PNG \<lparr>e_quality = q, e_progressive = Some True\<rparr> p
      else if f = ''webp''
        then encodeToBuffer E WEBP \<lparr>e_quality = q, e_progressive = None\<rparr> p
      else if f = ''avif''
        then encodeToBuffer E AVIF \<lparr>e_quality = q, e_progressive = None\<rparr> p
      else if f = ''tiff''
        then encodeToBuffer E TIFF \<lparr>e_quality = q, e_progressive = None\<rparr> p
      else Inl (''Unsupported output format: '' @ outputFormat opts))"

text \<open>
  Lines 185-199: the switch inside the loop. It has four cases and no default:
  for any other format name the processor and the buffer stay as they are.
\<close>

definition reencode ::
  "('p, 'w) env \<Rightarrow> string \<Rightarrow> int \<Rightarrow> 'p \<Rightarrow> buffer \<Rightarrow> string + ('p \<times> buffer)" where
  "reencode E fmt q p b =
     (let f = toLowerCase fmt in
      if f = ''jpeg'' \<or> f = ''jpg''
        then encodeToBuffer E JPEG \<lparr>e_quality = q, e_progressive = None\<rparr> p
      else if f = ''png''
        then encodeToBuffer E PNG \<lparr>e_quality = q, e_progressive = None\<rparr> p
      else if f = ''webp''
        then encodeToBuffer E WEBP \<lparr>e_quality = q, e_progressive = None\<rparr> p
      else if f = ''avif''
        then encodeToBuffer E AVIF \<lparr>e_quality = q, e_progressive = None\<rparr> p
      else Inr (p, b))"

text \<open>The local variables of convertImage that the loop reads and writes.\<close>

record 'p locals =
  processor :: 'p
  outputBuffer :: buffer
  quality_var :: int
  attempts :: nat

definition maxAttempts :: nat where
  "maxAttempts = 5"

text \<open>Lines 182-199: one pass through the loop body.\<close>

definition loopBody :: "('p, 'w) env \<Rightarrow> string \<Rightarrow> 'p locals \<Rightarrow> string + 'p locals" where
  "loopBody E fmt s =
     (let q = quality_var s - 15; a = attempts s + 1 in
      case reencode E fmt q (processor s) (outputBuffer s) of
        Inl e \<Rightarrow> Inl e
      | Inr (p', b') \<Rightarrow>
          Inr \<lparr>processor = p', outputBuffer = b', quality_var = q, attempts = a\<rparr>)"

text \<open>Line 181: the loop guard.\<close>

definition loopGuard :: "int \<Rightarrow> 'p locals \<Rightarrow> bool" where
  "loopGuard target s \<longleftrightarrow>
     int (length (outputBuffer s)) > target * 1024 \<and> quality_var s > 10
       \<and> attempts s < maxAttempts"

function sizeFitLoop ::
  "('p, 'w) env \<Rightarrow> string \<Rightarrow> int \<Rightarrow> 'p locals \<Rightarrow> string + 'p locals" where
  "sizeFitLoop E fmt target s =
     (if loopGuard target s
      then (case loopBody E fmt s of
              Inl e \<Rightarrow> Inl e
            | Inr s' \<Rightarrow> sizeFitLoop E fmt target s')
      else Inr s)"
  by pat_completeness auto
termination
proof (relation "measure (\<lambda>(E, fmt, target, s). maxAttempts - attempts s)")
  show "wf (measure (\<lambda>(E :: ('p, 'w) env, fmt :: string, target :: int, s :: 'p locals).
              maxAttempts - attempts s))"
    by simp
next
  fix E :: "('p, 'w) env" and fmt :: string and target :: int
    and s s' :: "'p locals"
  assume "loopGuard target s" and "loopBody E fmt s = Inr s'"
  then have "attempts s < maxAttempts" and "attempts s' = attempts s + 1"
    by (auto simp: loopGuard_def loopBody_def Let_def split: sum.splits)
  then show "((E, fmt, target, s'), (E, fmt, target, s))
               \<in> measure (\<lambda>(E, fmt, target, s). maxAttempts - attempts s)"
    by simp
qed

declare sizeFitLoop.simps [simp del]

text \<open>Lines 177-178: the loop variables before the first pass.\<close>

definition initLocals :: "options \<Rightarrow> 'p \<Rightarrow> buffer \<Rightarrow> 'p locals" where
  "initLocals opts p b =
     \<lparr>processor = p, outputBuffer = b,
      quality_var = or_else (quality opts) 80, attempts = 0\<rparr>"

text \<open>The loop body run \<open>k\<close> times in a row, with no guard in between.\<close>

primrec loopBody_times ::
  "('p, 'w) env \<Rightarrow> string \<Rightarrow> nat \<Rightarrow> 'p locals \<Rightarrow> string + 'p locals" where
  "loopBody_times E fmt 0 s = Inr s"
| "loopBody_times E fmt (Suc k) s =
     (case loopBody E fmt s of
        Inl e \<Rightarrow> Inl e
      | Inr s' \<Rightarrow> loopBody_times E fmt k s')"

text \<open>
  The body of the try block of convertImage (lines 129-203), returning the final
  values of its local variables; \<open>quality\<close> and \<open>attempts\<close> keep their initial
  values when the size-fitting stage is not entered.
\<close>

definition convertImage_body ::
  "('p, 'w) env \<Rightarrow> buffer \<Rightarrow> options \<Rightarrow> string + 'p locals" where
  "convertImage_body E inputBuffer opts =
     (case sharp E inputBuffer of
        Inl e \<Rightarrow> Inl e
      | Inr p0 \<Rightarrow>
     (case resizeStage E opts p0 of
        Inl e \<Rightarrow> Inl e
      | Inr p1 \<Rightarrow>
     (case encodeStage E opts p1 of
        Inl e \<Rightarrow> Inl e
      | Inr (p2, b) \<Rightarrow>
          (let s = initLocals opts p2 b in
           case targetSizeKB opts of
             None \<Rightarrow> Inr s
           | Some t \<Rightarrow>
               if t \<noteq> 0 \<and> int (length b) > t * 1024
               then sizeFitLoop E (outputFormat opts) t s
               else Inr s))))"

text \<open>convertImage: the returned buffer, or the re-thrown error (lines 203-206).\<close>

definition convertImage :: "('p, 'w) env \<Rightarrow> buffer \<Rightarrow> options \<Rightarrow> string + buffer" where
  "convertImage E inputBuffer opts =
     (case convertImage_body E inputBuffer opts of
        Inl e \<Rightarrow> Inl (''Image conversion failed: '' @ e)
      | Inr s \<Rightarrow> Inr (outputBuffer s))"


section \<open>The analysis helpers\<close>

record info =
  i_width :: nat
  i_height :: nat
  i_format :: string
  i_size :: nat
  i_hasAlpha :: bool
  i_aspectRatio :: jsnum

text \<open>Lines 77-91. The division is carried out on whatever the metadata holds.\<close>

definition getImageInfo :: "('p, 'w) env \<Rightarrow> buffer \<Rightarrow> string + info" where
  "getImageInfo E buf =
     (case sharp E buf of
        Inl e \<Rightarrow> Inl (''Failed to get image info: '' @ e)
      | Inr p \<Rightarrow>
     (case metadata_of E p of
        Inl e \<Rightarrow> Inl (''Failed to get image info: '' @ e)
      | Inr m \<Rightarrow>
          Inr \<lparr>i_width = m_width m, i_height = m_height m, i_format = m_format m,
               i_size = length buf,
               i_hasAlpha = (case m_hasAlpha m of None \<Rightarrow> False | Some a \<Rightarrow> a),
               i_aspectRatio = js_div (m_width m) (m_height m)\<rparr>))"

text \<open>
  Lines 93-110. \<open>Rgb r g b\<close> is the string \<open>rgb(r, g, b)\<close>, \<open>Hex s\<close> a literal
  colour string. A failure of the statistics is caught and replaced by the
  default palette.
\<close>

datatype color = Rgb int int int | Hex string

definition analyzeImageColors :: "('p, 'w) env \<Rightarrow> buffer \<Rightarrow> color list" where
  "analyzeImageColors E buf =
     (case sharp E buf of
        Inl e \<Rightarrow> [Hex ''#888888'', Hex ''#666666'', Hex ''#444444'']
      | Inr p \<Rightarrow>
     (case stats E p of
        Inl e \<Rightarrow> [Hex ''#888888'', Hex ''#666666'', Hex ''#444444'']
      | Inr d \<Rightarrow>
          take 5 [Rgb (d_r d) (d_g d) (d_b d),
                  Rgb (max 0 (d_r d - 30)) (d_g d) (d_b d),
                  Rgb (d_r d) (max 0 (d_g d - 30)) (d_b d)]))"

text \<open>Lines 112-117.\<close>

definition recommendFormat :: "info \<Rightarrow> bool \<Rightarrow> string" where
  "recommendFormat nfo hasTransparency =
     (if hasTransparency then ''png''
      else if i_format nfo = ''gif'' then ''gif''
      else if i_width nfo * i_height nfo > 1000000 then ''jpeg''
      else ''webp'')"

text \<open>Lines 119-125.\<close>

definition estimateQuality :: "nat \<Rightarrow> nat \<Rightarrow> nat \<Rightarrow> int" where
  "estimateQuality sz w h =
     (let pixelDensity = js_div sz (w * h) in
      if js_gt pixelDensity 3 then 95
      else if js_gt pixelDensity 2 then 85
      else if js_gt pixelDensity 1 then 75
      else 65)"

text \<open>\<open>Number(x.toFixed(2))\<close>; \<open>Infinity\<close> and \<open>NaN\<close> pass through unchanged.\<close>

definition round2 :: "('p, 'w) env \<Rightarrow> jsnum \<Rightarrow> jsnum" where
  "round2 E x = (case x of Fin r \<Rightarrow> Fin (toFixed2 E r) | Infinity \<Rightarrow> Infinity | NaN \<Rightarrow> NaN)"


section \<open>Presets\<close>

text \<open>Lines 216-227.\<close>

definition PRESET_SIZES :: "(string \<times> (int \<times> int)) list" where
  "PRESET_SIZES =
     [(''square-small'', (512, 512)),
      (''square-large'', (1024, 1024)),
      (''portrait-small'', (512, 768)),
      (''portrait-large'', (768, 1024)),
      (''landscape-small'', (768, 512)),
      (''landscape-large'', (1024, 768)),
      (''facebook'', (1200, 630)),
      (''instagram'', (1080, 1080)),
      (''twitter'', (1200, 675)),
      (''linkedin'', (1200, 627))]"

text \<open>
  \<open>PRESET_SIZES\<close> is an object literal, so \<open>PRESET_SIZES[key]\<close> also finds the
  properties every object inherits from \<open>Object.prototype\<close>. Each of those is a
  function or an object: truthy, and with no \<open>width\<close> or \<open>height\<close> of its own.
\<close>

definition Object_prototype :: "string list" where
  "Object_prototype =
     [''constructor'', ''__proto__'', ''hasOwnProperty'', ''isPrototypeOf'',
      ''propertyIsEnumerable'', ''toLocaleString'', ''toString'', ''valueOf'',
      ''__defineGetter__'', ''__defineSetter__'', ''__lookupGetter__'',
      ''__lookupSetter__'']"

datatype property = Undefined | Preset int int | Inherited

definition PRESET_SIZES_get :: "string \<Rightarrow> property" where
  "PRESET_SIZES_get key =
     (case map_of PRESET_SIZES key of
        Some (w, h) \<Rightarrow> Preset w h
      | None \<Rightarrow> if key \<in> set Object_prototype then Inherited else Undefined)"

text \<open>
  Lines 303-307 (the same code stands at lines 403-408 and 642-647): the preset
  is applied to the conversion options already built.
\<close>

definition applyPreset :: "string option \<Rightarrow> options \<Rightarrow> options" where
  "applyPreset preset convertOptions =
     (case preset of
        None \<Rightarrow> convertOptions
      | Some key \<Rightarrow>
          if key = [] then convertOptions
          else (case PRESET_SIZES_get key of
                  Undefined \<Rightarrow> convertOptions
                | Preset w h \<Rightarrow> convertOptions\<lparr>width := Some w, height := Some h\<rparr>
                | Inherited \<Rightarrow> convertOptions\<lparr>width := None, height := None\<rparr>))"


section \<open>Requests and responses\<close>

record upload =
  originalname :: string
  mimetype :: string
  f_buffer :: buffer

text \<open>multer's memory storage sets \<open>file.size\<close> to the length of the buffer.\<close>

definition f_size :: "upload \<Rightarrow> nat" where
  "f_size f = length (f_buffer f)"

record body =
  b_outputFormat :: "string option"
  b_quality :: "string option"
  b_width :: "string option"
  b_height :: "string option"
  b_maintainAspectRatio :: "string option"
  b_targetSizeKB :: "string option"
  b_preset :: "string option"
  b_settings :: "string option"

record request =
  req_file :: "upload option"
  req_files :: "upload list"
  body :: body
  protocol :: string
  host :: string

text \<open>\<open>Error status message\<close> is \<open>res.status(status).json({ error: message })\<close>.\<close>

datatype 'a response = Error nat string | Json 'a

record analysis =
  colors :: "color list"
  hasTransparency :: bool
  aspectRatio :: jsnum
  recommendedFormat :: string
  estimatedQuality :: int
  a_width :: nat
  a_height :: nat
  a_format :: string
  a_size :: nat

record originalFile =
  o_name :: string
  o_size :: nat
  o_type :: string
  o_width :: nat
  o_height :: nat

record convertedFile =
  c_name :: string
  c_size :: nat
  c_type :: string
  c_width :: nat
  c_height :: nat
  c_url :: string

record conversionResult =
  originalFile :: originalFile
  convertedFile :: convertedFile
  compressionRatio :: jsnum
  finalQuality :: "int option"

text \<open>
  An entry of \<open>results\<close> in a batch: a conversion result with status \<open>success\<close>, or
  the name, size and type of the file with status \<open>failed\<close> and the error message.
\<close>

datatype batchItem = Success conversionResult | Failed string nat string string

record batchResponse =
  results :: "batchItem list"
  totalProcessed :: nat
  totalErrors :: nat
  errors :: "string list option"


section \<open>POST /api/analyze-image\<close>

text \<open>Lines 232-270.\<close>

definition analyze_image :: "('p, 'w) env \<Rightarrow> request \<Rightarrow> analysis response" where
  "analyze_image E req =
     (case req_file req of
        None \<Rightarrow> Error 400 ''No file provided''
      | Some f \<Rightarrow>
     (case getImageInfo E (f_buffer f) of
        Inl e \<Rightarrow> Error 500 e
      | Inr nfo \<Rightarrow>
          (let cs = analyzeImageColors E (f_buffer f);
               hasT = i_hasAlpha nfo
           in Json \<lparr>colors = cs, hasTransparency = hasT,
                    aspectRatio = round2 E (i_aspectRatio nfo),
                    recommendedFormat = recommendFormat nfo hasT,
                    estimatedQuality = estimateQuality (i_size nfo) (i_width nfo) (i_height nfo),
                    a_width = i_width nfo, a_height = i_height nfo,
                    a_format = i_format nfo, a_size = i_size nfo\<rparr>)))"


section \<open>POST /api/convert-image\<close>

text \<open>\<open>field ? parseInt(field) : d\<close> on a text field of the form.\<close>

definition parseField :: "('p, 'w) env \<Rightarrow> string option \<Rightarrow> int option \<Rightarrow> int option" where
  "parseField E v d = (if truthy_str v then (case v of Some s \<Rightarrow> parseInt E s | None \<Rightarrow> d) else d)"

text \<open>Lines 293-300.\<close>

definition convertOptions_of :: "('p, 'w) env \<Rightarrow> string \<Rightarrow> body \<Rightarrow> options" where
  "convertOptions_of E fmt b =
     \<lparr>outputFormat = toLowerCase fmt,
      quality = parseField E (b_quality b) (Some 80),
      width = parseField E (b_width b) None,
      height = parseField E (b_height b) None,
      maintainAspectRatio = (b_maintainAspectRatio b \<noteq> Some ''false''),
      targetSizeKB = parseField E (b_targetSizeKB b) None\<rparr>"

text \<open>
  Lines 309-335 and 410-437, shared by the single and the batch handler: convert,
  read the result's metadata, store it, build the result object. The world \<open>w\<close>
  (the uuid generator and the temp directory) is passed along; a failure keeps
  the world reached so far.
\<close>

definition convertAndStore ::
  "('p, 'w) env \<Rightarrow> request \<Rightarrow> upload \<Rightarrow> info \<Rightarrow> string \<Rightarrow> options \<Rightarrow> 'w
     \<Rightarrow> (string + conversionResult) \<times> 'w" where
  "convertAndStore E req f originalInfo fmt convertOptions w =
     (case convertImage E (f_buffer f) convertOptions of
        Inl e \<Rightarrow> (Inl e, w)
      | Inr convertedBuffer \<Rightarrow>
     (case getImageInfo E convertedBuffer of
        Inl e \<Rightarrow> (Inl e, w)
      | Inr convertedInfo \<Rightarrow>
          (let (uuid, w1) = uuidv4 E w;
               filename = uuid @ ''.'' @ toLowerCase fmt
           in case writeFile E filename convertedBuffer w1 of
                Inl e \<Rightarrow> (Inl e, w1)
              | Inr w2 \<Rightarrow>
                  (Inr \<lparr>originalFile =
                          \<lparr>o_name = originalname f, o_size = i_size originalInfo,
                           o_type = mimetype f, o_width = i_width originalInfo,
                           o_height = i_height originalInfo\<rparr>,
                        convertedFile =
                          \<lparr>c_name = filename, c_size = i_size convertedInfo,
                           c_type = ''image/'' @ toLowerCase fmt,
                           c_width = i_width convertedInfo,
                           c_height = i_height convertedInfo,
                           c_url = protocol req @ ''://'' @ host req @ ''/temp/'' @ filename\<rparr>,
                        compressionRatio =
                          round2 E (js_div (i_size originalInfo) (i_size convertedInfo)),
                        finalQuality = quality convertOptions\<rparr>, w2))))"

text \<open>Lines 273-344.\<close>

definition convert_image ::
  "('p, 'w) env \<Rightarrow> request \<Rightarrow> 'w \<Rightarrow> conversionResult response \<times> 'w" where
  "convert_image E req w =
     (case req_file req of
        None \<Rightarrow> (Error 400 ''No file provided'', w)
      | Some f \<Rightarrow>
          if \<not> truthy_str (b_outputFormat (body req))
          then (Error 400 ''Output format is required'', w)
          else
            (case b_outputFormat (body req) of
               None \<Rightarrow> (Error 400 ''Output format is required'', w)
             | Some fmt \<Rightarrow>
            (case getImageInfo E (f_buffer f) of
               Inl e \<Rightarrow> (Error 500 e, w)
             | Inr originalInfo \<Rightarrow>
                 (let convertOptions =
                        applyPreset (b_preset (body req)) (convertOptions_of E fmt (body req))
                  in case convertAndStore E req f originalInfo fmt convertOptions w of
                       (Inl e, w') \<Rightarrow> (Error 500 e, w')
                     | (Inr r, w') \<Rightarrow> (Json r, w')))))"


section \<open>POST /api/convert-batch\<close>

text \<open>Lines 366-374: the settings taken from the separate form fields.\<close>

definition settings_of_fields :: "('p, 'w) env \<Rightarrow> body \<Rightarrow> settings" where
  "settings_of_fields E b =
     \<lparr>s_outputFormat = b_outputFormat b,
      s_quality = parseField E (b_quality b) (Some 80),
      s_width = parseField E (b_width b) None,
      s_height = parseField E (b_height b) None,
      s_maintainAspectRatio = Some (b_maintainAspectRatio b \<noteq> Some ''false''),
      s_targetSizeKB = parseField E (b_targetSizeKB b) None,
      s_preset = b_preset b\<rparr>"

text \<open>Lines 393-400.\<close>

definition batchOptions :: "string \<Rightarrow> settings \<Rightarrow> options" where
  "batchOptions fmt st =
     \<lparr>outputFormat = toLowerCase fmt,
      quality = Some (or_else (s_quality st) 80),
      width = s_width st,
      height = s_height st,
      maintainAspectRatio = (s_maintainAspectRatio st \<noteq> Some False),
      targetSizeKB = s_targetSizeKB st\<rparr>"

text \<open>Lines 388-441: the body of the try block for one file.\<close>

definition processFile ::
  "('p, 'w) env \<Rightarrow> request \<Rightarrow> string \<Rightarrow> settings \<Rightarrow> upload \<Rightarrow> 'w
     \<Rightarrow> (string + conversionResult) \<times> 'w" where
  "processFile E req fmt st f w =
     (case getImageInfo E (f_buffer f) of
        Inl e \<Rightarrow> (Inl e, w)
      | Inr originalInfo \<Rightarrow>
          convertAndStore E req f originalInfo fmt
            (applyPreset (s_preset st) (batchOptions fmt st)) w)"

record 'w batchState =
  st_results :: "batchItem list"
  st_errors :: "string list"
  st_totalProcessed :: nat
  st_world :: 'w

text \<open>Lines 387-457: the loop over the files, with its catch block.\<close>

fun batchLoop ::
  "('p, 'w) env \<Rightarrow> request \<Rightarrow> string \<Rightarrow> settings \<Rightarrow> upload list \<Rightarrow> 'w batchState
     \<Rightarrow> 'w batchState" where
  "batchLoop E req fmt st [] s = s"
| "batchLoop E req fmt st (f # fs) s =
     (case processFile E req fmt st f (st_world s) of
        (Inr r, w') \<Rightarrow>
          batchLoop E req fmt st fs
            (s\<lparr>st_results := st_results s @ [Success r],
               st_totalProcessed := st_totalProcessed s + 1,
               st_world := w'\<rparr>)
      | (Inl e, w') \<Rightarrow>
          batchLoop E req fmt st fs
            (s\<lparr>st_errors := st_errors s @ [originalname f @ '': '' @ e],
               st_results := st_results s @ [Failed (originalname f) (f_size f) (mimetype f) e],
               st_world := w'\<rparr>))"

text \<open>Lines 357-375: the settings come from the JSON field if there is one.\<close>

definition requestSettings :: "('p, 'w) env \<Rightarrow> body \<Rightarrow> parsed" where
  "requestSettings E b =
     (if truthy_str (b_settings b)
      then (case b_settings b of
              Some txt \<Rightarrow> JSON_parse E txt
            | None \<Rightarrow> NotAnObject)
      else Object (settings_of_fields E b))"

text \<open>Lines 347-473.\<close>

definition convert_batch ::
  "('p, 'w) env \<Rightarrow> request \<Rightarrow> 'w \<Rightarrow> batchResponse response \<times> 'w" where
  "convert_batch E req w =
     (if req_files req = [] then (Error 400 ''No files provided'', w)
      else
        (case requestSettings E (body req) of
           Throws \<Rightarrow> (Error 400 ''Invalid settings JSON format'', w)
         | NotAnObject \<Rightarrow> (Error 400 ''Settings with outputFormat are required'', w)
         | Object st \<Rightarrow>
             (case s_outputFormat st of
                None \<Rightarrow> (Error 400 ''Settings with outputFormat are required'', w)
              | Some fmt \<Rightarrow>
                  if fmt = [] then (Error 400 ''Settings with outputFormat are required'', w)
                  else
                    (let s = batchLoop E req fmt st (req_files req)
                               \<lparr>st_results = [], st_errors = [], st_totalProcessed = 0,
                                st_world = w\<rparr>
                     in (Json \<lparr>results = st_results s,
                               totalProcessed = st_totalProcessed s,
                               totalErrors = length (st_errors s),
                               errors = (if length (st_errors s) > 0
                                         then Some (st_errors s) else None)\<rparr>,
                         st_world s)))))"

text \<open>
  For stating the batch report: the entry that the loop appends for one file,
  given the outcome of its try block, and the entries for a list of files when
  each file is processed in the world its predecessors left.
\<close>

definition item_of :: "upload \<Rightarrow> string + conversionResult \<Rightarrow> batchItem" where
  "item_of f outcome =
     (case outcome of
        Inr r \<Rightarrow> Success r
      | Inl e \<Rightarrow> Failed (originalname f) (f_size f) (mimetype f) e)"

fun itemOutcomes ::
  "('p, 'w) env \<Rightarrow> request \<Rightarrow> string \<Rightarrow> settings \<Rightarrow> upload list \<Rightarrow> 'w
     \<Rightarrow> batchItem list" where
  "itemOutcomes E req fmt st [] w = []"
| "itemOutcomes E req fmt st (f # fs) w =
     (case processFile E req fmt st f w of
        (outcome, w') \<Rightarrow> item_of f outcome # itemOutcomes E req fmt st fs w')"

fun is_success :: "batchItem \<Rightarrow> bool" where
  "is_success (Success r) = True"
| "is_success (Failed name sz type e) = False"

fun item_name :: "batchItem \<Rightarrow> string" where
  "item_name (Success r) = o_name (originalFile r)"
| "item_name (Failed name sz type e) = name"

fun error_line :: "batchItem \<Rightarrow> string option" where
  "error_line (Success r) = None"
| "error_line (Failed name sz type e) = Some (name @ '': '' @ e)"


section \<open>What the codec is expected to do with the resize options\<close>

text \<open>
  \<open>encodes E p p'\<close>: the processor \<open>p'\<close> is \<open>p\<close> after some calls of the encoder
  methods, and nothing else.

  The size of the output image is decided by the codec. \<open>honours_resize\<close> states
  what the library documents for the two options that convertImage passes: with
  \<open>withoutEnlargement\<close> the output is never wider or higher than the input; with
  fit \<open>fill\<close> and a requested width and height that do not exceed the input's,
  the output has exactly the requested width and height.
\<close>


inductive encodes :: "('p, 'w) env \<Rightarrow> 'p \<Rightarrow> 'p \<Rightarrow> bool" for E :: "('p, 'w) env" where
  encodes_none: "encodes E p p"
| encodes_more: "encodes E p p' \<Longrightarrow> encoder E f eo p' = Inr p'' \<Longrightarrow> encodes E p p''"

definition honours_resize :: "('p, 'w) env \<Rightarrow> bool" where
  "honours_resize E \<longleftrightarrow>
     (\<forall>b p0 mi r p1 p out po mo.
        sharp E b = Inr p0 \<and> metadata_of E p0 = Inr mi
        \<and> resize E r p0 = Inr p1 \<and> encodes E p1 p \<and> toBuffer E p = Inr out
        \<and> sharp E out = Inr po \<and> metadata_of E po = Inr mo
        \<longrightarrow> (withoutEnlargement r \<longrightarrow>
               m_width mo \<le> m_width mi \<and> m_height mo \<le> m_height mi)
          \<and> (\<forall>w h. r_fit r = Fill \<and> r_width r = Some w \<and> r_height r = Some h
                 \<and> 0 < w \<and> 0 < h \<and> w \<le> int (m_width mi) \<and> h \<le> int (m_height mi)
                 \<longrightarrow> m_width mo = nat w \<and> m_height mo = nat h))"


section \<open>A small concrete environment\<close>

text \<open>
  The theorems below hold for every environment. To run the handlers on concrete
  requests, this section gives one executable environment. Its image files are
  six header bytes (width and height as two bytes each, a format tag, an alpha
  flag) followed by a payload; a file with fewer bytes, or with a width or height
  of zero, is rejected as undecodable, so the metadata never reports a zero
  dimension. An encoder accepts a quality from 1 to 100 and throws on any other,
  and an encode at quality \<open>q\<close> writes a payload of \<open>300 * q\<close> bytes. A resize
  with \<open>withoutEnlargement\<close> leaves an axis alone when the requested size is
  larger than the source, as the library documents.
\<close>

record test_processor =
  t_input :: buffer
  t_resize :: "resizeOptions option"
  t_output :: "(format \<times> int) option"

record test_world =
  next_id :: nat
  temp_files :: "string list"

definition test_format_name :: "8 word \<Rightarrow> string" where
  "test_format_name tag =
     (if tag = 0 then ''jpeg'' else if tag = 1 then ''png'' else if tag = 2 then ''webp''
      else if tag = 3 then ''avif'' else if tag = 4 then ''tiff'' else ''gif'')"

definition test_tag :: "format \<Rightarrow> 8 word" where
  "test_tag f = (case f of JPEG \<Rightarrow> 0 | PNG \<Rightarrow> 1 | WEBP \<Rightarrow> 2 | AVIF \<Rightarrow> 3 | TIFF \<Rightarrow> 4)"

definition test_metadata :: "buffer \<Rightarrow> string + metadata" where
  "test_metadata b =
     (case b of
        wh # wl # hh # hl # tag # a # payload \<Rightarrow>
          if unat wh * 256 + unat wl = 0 \<or> unat hh * 256 + unat hl = 0
          then Inl ''Input buffer contains unsupported image format''
          else Inr \<lparr>m_width = unat wh * 256 + unat wl, m_height = unat hh * 256 + unat hl,
                    m_format = test_format_name tag, m_hasAlpha = Some (a \<noteq> 0)\<rparr>
      | _ \<Rightarrow> Inl ''Input buffer contains unsupported image format'')"

definition test_axis :: "bool \<Rightarrow> nat \<Rightarrow> int option \<Rightarrow> nat" where
  "test_axis noEnlarge src target =
     (case target of
        None \<Rightarrow> src
      | Some n \<Rightarrow> if noEnlarge then min src (nat n) else nat n)"

definition test_inside :: "bool \<Rightarrow> nat \<times> nat \<Rightarrow> int option \<Rightarrow> int option \<Rightarrow> nat \<times> nat" where
  "test_inside noEnlarge src tw th =
     (let sw = fst src; sh = snd src;
          byWidth = (\<lambda>w. (w, (2 * sh * w + sw) div (2 * sw)));
          byHeight = (\<lambda>h. ((2 * sw * h + sh) div (2 * sh), h));
          d = (case (tw, th) of
                 (None, None) \<Rightarrow> src
               | (Some w, None) \<Rightarrow> byWidth (nat w)
               | (None, Some h) \<Rightarrow> byHeight (nat h)
               | (Some w, Some h) \<Rightarrow>
                   if nat w * sh \<le> nat h * sw then byWidth (nat w) else byHeight (nat h))
      in if noEnlarge \<and> (fst d > sw \<or> snd d > sh) then src else d)"

definition test_dims :: "resizeOptions option \<Rightarrow> nat \<times> nat \<Rightarrow> nat \<times> nat" where
  "test_dims r src =
     (case r of
        None \<Rightarrow> src
      | Some ro \<Rightarrow>
          (case r_fit ro of
             Fill \<Rightarrow> (test_axis (withoutEnlargement ro) (fst src) (r_width ro),
                      test_axis (withoutEnlargement ro) (snd src) (r_height ro))
           | Inside \<Rightarrow> test_inside (withoutEnlargement ro) src (r_width ro) (r_height ro)))"

definition test_toBuffer :: "test_processor \<Rightarrow> string + buffer" where
  "test_toBuffer p =
     (case test_metadata (t_input p) of
        Inl e \<Rightarrow> Inl e
      | Inr m \<Rightarrow>
     (case t_output p of
        None \<Rightarrow> Inl ''No output format''
      | Some (f, q) \<Rightarrow>
          (let d = test_dims (t_resize p) (m_width m, m_height m) in
           Inr ([of_nat (fst d div 256), of_nat (fst d mod 256),
                 of_nat (snd d div 256), of_nat (snd d mod 256),
                 test_tag f, (if m_hasAlpha m = Some True \<and> f \<noteq> JPEG then 1 else 0)]
                @ replicate (300 * nat q) 0))))"

text \<open>A stand-in for \<open>parseInt\<close> on plain decimal strings; anything else is \<open>NaN\<close>.\<close>

definition test_digit :: "char \<Rightarrow> int option" where
  "test_digit c = map_of (zip ''0123456789'' [0, 1, 2, 3, 4, 5, 6, 7, 8, 9]) c"

definition test_parseInt :: "string \<Rightarrow> int option" where
  "test_parseInt s =
     (if s = [] \<or> (\<exists>c \<in> set s. test_digit c = None) then None
      else Some (foldl (\<lambda>n c. 10 * n + (case test_digit c of Some d \<Rightarrow> d | None \<Rightarrow> 0)) 0 s))"

definition test_env :: "(test_processor, test_world) env" where
  "test_env =
     \<lparr>sharp = (\<lambda>b. if b = [] then Inl ''Input Buffer is empty''
                   else Inr \<lparr>t_input = b, t_resize = None, t_output = None\<rparr>),
      resize = (\<lambda>r p. Inr (p\<lparr>t_resize := Some r\<rparr>)),
      encoder = (\<lambda>f eo p.
                   if 1 \<le> e_quality eo \<and> e_quality eo \<le> 100
                   then Inr (p\<lparr>t_output := Some (f, e_quality eo)\<rparr>)
                   else Inl ''Expected integer between 1 and 100 for quality''),
      toBuffer = test_toBuffer,
      metadata_of = (\<lambda>p. test_metadata (t_input p)),
      stats = (\<lambda>p. Inr \<lparr>d_r = 10, d_g = 200, d_b = 40\<rparr>),
      uuidv4 = (\<lambda>w. (''id'' @ replicate (next_id w) (CHR ''x''), w\<lparr>next_id := Suc (next_id w)\<rparr>)),
      writeFile = (\<lambda>name b w. Inr (w\<lparr>temp_files := temp_files w @ [name]\<rparr>)),
      parseInt = test_parseInt,
      toFixed2 = (\<lambda>r. of_int \<lfloor>r * 100 + 1 / 2\<rfloor> / 100),
      JSON_parse = (\<lambda>txt. Throws)\<rparr>"

text \<open>A source image of the given size and format tag, with a 2000-byte payload.\<close>

definition test_image :: "8 word \<Rightarrow> 8 word \<Rightarrow> 8 word \<Rightarrow> 8 word \<Rightarrow> 8 word \<Rightarrow> 8 word \<Rightarrow> buffer" where
  "test_image wh wl hh hl tag a = [wh, wl, hh, hl, tag, a] @ replicate 2000 0"

definition no_body :: body where
  "no_body =
     \<lparr>b_outputFormat = None, b_quality = None, b_width = None, b_height = None,
      b_maintainAspectRatio = None, b_targetSizeKB = None, b_preset = None,
      b_settings = None\<rparr>"

definition test_world0 :: test_world where
  "test_world0 = \<lparr>next_id = 0, temp_files = []\<rparr>"


subsection \<open>Concrete requests\<close>

definition opts_webp_1KB :: options where
  "opts_webp_1KB =
     \<lparr>outputFormat = ''webp'', quality = None, width = None, height = None,
      maintainAspectRatio = True, targetSizeKB = Some 1\<rparr>"

definition opts_webp_75_1KB :: options where
  "opts_webp_75_1KB =
     \<lparr>outputFormat = ''webp'', quality = Some 75, width = None, height = None,
      maintainAspectRatio = True, targetSizeKB = Some 1\<rparr>"

definition body_webp_75_1KB :: body where
  "body_webp_75_1KB =
     no_body\<lparr>b_outputFormat := Some ''webp'', b_quality := Some ''75'',
             b_targetSizeKB := Some ''1''\<rparr>"

definition webp_processor :: "int \<Rightarrow> test_processor" where
  "webp_processor q =
     \<lparr>t_input = test_image 0 100 0 100 0 0, t_resize = None, t_output = Some (WEBP, q)\<rparr>"

definition webp_100x100 :: "nat \<Rightarrow> buffer" where
  "webp_100x100 payload = [0, 100, 0, 100, 2, 0] @ replicate payload 0"

definition opts_JPG :: options where
  "opts_JPG =
     \<lparr>outputFormat = ''JPG'', quality = None, width = None, height = None,
      maintainAspectRatio = True, targetSizeKB = None\<rparr>"

definition opts_tiff_1KB :: options where
  "opts_tiff_1KB =
     \<lparr>outputFormat = ''tiff'', quality = None, width = None, height = None,
      maintainAspectRatio = True, targetSizeKB = Some 1\<rparr>"


definition req_of :: "upload \<Rightarrow> body \<Rightarrow> request" where
  "req_of f b = \<lparr>req_file = Some f, req_files = [], body = b, protocol = ''http'', host = ''localhost:3005''\<rparr>"

definition photo_2000x1000 :: upload where
  "photo_2000x1000 = \<lparr>originalname = ''photo.jpg'', mimetype = ''image/jpeg'',
      f_buffer = test_image 7 208 3 232 0 0\<rparr>"



definition opts_300x200 :: options where
  "opts_300x200 =
     \<lparr>outputFormat = ''webp'', quality = Some 80, width = Some 300, height = Some 200,
      maintainAspectRatio = True, targetSizeKB = None\<rparr>"

definition icon_100x100 :: upload where
  "icon_100x100 = \<lparr>originalname = ''icon.jpg'', mimetype = ''image/jpeg'',
      f_buffer = test_image 0 100 0 100 0 0\<rparr>"

definition body_webp_16KB :: body where
  "body_webp_16KB = no_body\<lparr>b_outputFormat := Some ''webp'', b_targetSizeKB := Some ''16''\<rparr>"

definition body_bmp :: body where
  "body_bmp = no_body\<lparr>b_outputFormat := Some ''bmp''\<rparr>"


definition corrupt_file :: upload where
  "corrupt_file = \<lparr>originalname = ''broken.png'', mimetype = ''image/png'', f_buffer = [1, 2, 3]\<rparr>"

definition batch_request :: request where
  "batch_request =
     \<lparr>req_file = None, req_files = [icon_100x100, corrupt_file, photo_2000x1000],
      body = no_body\<lparr>b_outputFormat := Some ''webp''\<rparr>,
      protocol = ''http'', host = ''localhost:3005''\<rparr>"

definition batch_settings :: settings where
  "batch_settings =
     \<lparr>s_outputFormat = Some ''webp'', s_quality = Some 80, s_width = None, s_height = None,
      s_maintainAspectRatio = Some True, s_targetSizeKB = None, s_preset = None\<rparr>"

definition body_200x200_fill :: body where
  "body_200x200_fill =
     no_body\<lparr>b_outputFormat := Some ''webp'', b_width := Some ''200'', b_height := Some ''200'',
             b_maintainAspectRatio := Some ''false''\<rparr>"

definition opts_fill :: "int \<Rightarrow> int \<Rightarrow> options" where
  "opts_fill w h =
     \<lparr>outputFormat = ''webp'', quality = Some 80, width = Some w, height = Some h,
      maintainAspectRatio = False, targetSizeKB = None\<rparr>"


section \<open>Evaluating the concrete environment\<close>

lemmas test_defs = test_env_def test_image_def test_toBuffer_def test_metadata_def
  test_dims_def test_tag_def test_axis_def test_format_name_def

lemmas convert_defs = loopGuard_def loopBody_def reencode_def encodeToBuffer_def
  encodeStage_def resizeStage_def initLocals_def or_else_def truthy_def maxAttempts_def
  toLowerCase_def lower_char_def


section \<open>The size-fitting loop\<close>


lemma loopBody_attempts:
  "loopBody E fmt s = Inr s' \<Longrightarrow> attempts s' = attempts s + 1 \<and> quality_var s' = quality_var s - 15"
  by (auto simp: loopBody_def Let_def split: sum.splits)

lemma sizeFitLoop_attempts_mono:
  "sizeFitLoop E fmt t s = Inr s' \<Longrightarrow> attempts s \<le> attempts s'"
proof (induction E fmt t s rule: sizeFitLoop.induct)
  case (1 E fmt target s)
  show ?case
  proof (cases "loopGuard target s")
    case True
    with "1.prems" obtain s1 where b: "loopBody E fmt s = Inr s1"
      and r: "sizeFitLoop E fmt target s1 = Inr s'"
      by (subst (asm) sizeFitLoop.simps) (auto split: sum.splits)
    from "1.IH" [OF True b r] loopBody_attempts [OF b] show ?thesis by simp
  next
    case False
    with "1.prems" show ?thesis by (subst (asm) sizeFitLoop.simps) simp
  qed
qed

lemma sizeFitLoop_quality:
  "sizeFitLoop E fmt t s = Inr s' \<Longrightarrow>
     quality_var s' + 15 * int (attempts s') = quality_var s + 15 * int (attempts s)"
proof (induction E fmt t s rule: sizeFitLoop.induct)
  case (1 E fmt target s)
  show ?case
  proof (cases "loopGuard target s")
    case True
    with "1.prems" obtain s1 where b: "loopBody E fmt s = Inr s1"
      and r: "sizeFitLoop E fmt target s1 = Inr s'"
      by (subst (asm) sizeFitLoop.simps) (auto split: sum.splits)
    from "1.IH" [OF True b r] loopBody_attempts [OF b] show ?thesis by simp
  next
    case False
    with "1.prems" show ?thesis by (subst (asm) sizeFitLoop.simps) simp
  qed
qed

lemma sizeFitLoop_exit:
  "sizeFitLoop E fmt t s = Inr s' \<Longrightarrow> \<not> loopGuard t s'"
proof (induction E fmt t s rule: sizeFitLoop.induct)
  case (1 E fmt target s)
  show ?case
  proof (cases "loopGuard target s")
    case True
    with "1.prems" obtain s1 where b: "loopBody E fmt s = Inr s1"
      and r: "sizeFitLoop E fmt target s1 = Inr s'"
      by (subst (asm) sizeFitLoop.simps) (auto split: sum.splits)
    from "1.IH" [OF True b r] show ?thesis .
  next
    case False
    with "1.prems" show ?thesis by (subst (asm) sizeFitLoop.simps) simp
  qed
qed

lemma sizeFitLoop_bound:
  "sizeFitLoop E fmt t s = Inr s' \<Longrightarrow> attempts s \<le> maxAttempts \<Longrightarrow> attempts s' \<le> maxAttempts"
proof (induction E fmt t s rule: sizeFitLoop.induct)
  case (1 E fmt target s)
  show ?case
  proof (cases "loopGuard target s")
    case True
    with "1.prems" obtain s1 where b: "loopBody E fmt s = Inr s1"
      and r: "sizeFitLoop E fmt target s1 = Inr s'"
      by (subst (asm) sizeFitLoop.simps) (auto split: sum.splits)
    from True loopBody_attempts [OF b] have "attempts s1 \<le> maxAttempts"
      by (simp add: loopGuard_def)
    from "1.IH" [OF True b r this] show ?thesis .
  next
    case False
    with "1.prems" show ?thesis by (subst (asm) sizeFitLoop.simps) simp
  qed
qed

lemma sizeFitLoop_times:
  "sizeFitLoop E fmt t s = Inr s' \<Longrightarrow>
     loopBody_times E fmt (attempts s' - attempts s) s = Inr s'
     \<and> (\<forall>j < attempts s' - attempts s. \<exists>sj. loopBody_times E fmt j s = Inr sj \<and> loopGuard t sj)"
proof (induction E fmt t s rule: sizeFitLoop.induct)
  case (1 E fmt target s)
  show ?case
  proof (cases "loopGuard target s")
    case True
    with "1.prems" obtain s1 where b: "loopBody E fmt s = Inr s1"
      and r: "sizeFitLoop E fmt target s1 = Inr s'"
      by (subst (asm) sizeFitLoop.simps) (auto split: sum.splits)
    have a1: "attempts s1 = Suc (attempts s)" using loopBody_attempts [OF b] by simp
    have le: "attempts s1 \<le> attempts s'" by (rule sizeFitLoop_attempts_mono [OF r])
    then have k: "attempts s' - attempts s = Suc (attempts s' - attempts s1)"
      using a1 by simp
    from "1.IH" [OF True b r] have
      t1: "loopBody_times E fmt (attempts s' - attempts s1) s1 = Inr s'" and
      t2: "\<forall>j < attempts s' - attempts s1. \<exists>sj. loopBody_times E fmt j s1 = Inr sj \<and> loopGuard target sj"
      by simp_all
    have "loopBody_times E fmt (attempts s' - attempts s) s = Inr s'"
      unfolding k using b t1 by simp
    moreover have "\<forall>j < attempts s' - attempts s. \<exists>sj. loopBody_times E fmt j s = Inr sj \<and> loopGuard target sj"
    proof (intro allI impI)
      fix j assume j: "j < attempts s' - attempts s"
      show "\<exists>sj. loopBody_times E fmt j s = Inr sj \<and> loopGuard target sj"
      proof (cases j)
        case 0
        with True show ?thesis by simp
      next
        case (Suc i)
        with j k have "i < attempts s' - attempts s1" by simp
        with t2 obtain sj where "loopBody_times E fmt i s1 = Inr sj" "loopGuard target sj" by blast
        with Suc b show ?thesis by simp
      qed
    qed
    ultimately show ?thesis by blast
  next
    case False
    with "1.prems" have "s' = s" by (subst (asm) sizeFitLoop.simps) simp
    then show ?thesis by simp
  qed
qed

lemma sizeFitLoop_error:
  "sizeFitLoop E fmt t s = Inl e \<Longrightarrow>
     \<exists>j sj. attempts s + j < maxAttempts \<and> loopBody_times E fmt j s = Inr sj \<and> loopGuard t sj
        \<and> loopBody E fmt sj = Inl e"
proof (induction E fmt t s rule: sizeFitLoop.induct)
  case (1 E fmt target s)
  show ?case
  proof (cases "loopGuard target s")
    case True
    show ?thesis
    proof (cases "loopBody E fmt s")
      case (Inl e')
      with True "1.prems" have "e' = e" by (subst (asm) sizeFitLoop.simps) simp
      with Inl True have "attempts s + 0 < maxAttempts \<and> loopBody_times E fmt 0 s = Inr s \<and> loopGuard target s
        \<and> loopBody E fmt s = Inl e" by (simp add: loopGuard_def)
      then show ?thesis by blast
    next
      case (Inr s1)
      with True "1.prems" have r: "sizeFitLoop E fmt target s1 = Inl e"
        by (subst (asm) sizeFitLoop.simps) simp
      from "1.IH" [OF True Inr r] obtain j sj where
        "attempts s1 + j < maxAttempts" "loopBody_times E fmt j s1 = Inr sj" "loopGuard target sj"
        "loopBody E fmt sj = Inl e" by blast
      with Inr loopBody_attempts [OF Inr] have
        "attempts s + Suc j < maxAttempts \<and> loopBody_times E fmt (Suc j) s = Inr sj
          \<and> loopGuard target sj \<and> loopBody E fmt sj = Inl e" by simp
      then show ?thesis by blast
    qed
  next
    case False
    with "1.prems" show ?thesis by (subst (asm) sizeFitLoop.simps) simp
  qed
qed

lemma encodeToBuffer_indep [simp]:
  "encodeToBuffer (E\<lparr>resize := r, sharp := sh\<rparr>) f eo p = encodeToBuffer E f eo p"
  by (simp add: encodeToBuffer_def split: sum.splits)

lemma loopBody_indep [simp]:
  "loopBody (E\<lparr>resize := r, sharp := sh\<rparr>) fmt s = loopBody E fmt s"
  by (simp add: loopBody_def reencode_def Let_def)

lemma sizeFitLoop_indep:
  "sizeFitLoop (E\<lparr>resize := r, sharp := sh\<rparr>) fmt t s = sizeFitLoop E fmt t s"
proof (induction E fmt t s rule: sizeFitLoop.induct)
  case (1 E fmt target s)
  show ?case
  proof (cases "loopGuard target s")
    case True
    show ?thesis
    proof (cases "loopBody E fmt s")
      case (Inl e)
      with True show ?thesis by (simp add: sizeFitLoop.simps [of _ fmt target s])
    next
      case (Inr s1)
      with True "1.IH" [OF True Inr] show ?thesis
        by (simp add: sizeFitLoop.simps [of _ fmt target s])
    qed
  next
    case False
    then show ?thesis by (simp add: sizeFitLoop.simps [of _ fmt target s])
  qed
qed


lemma loopBody_times_vars:
  "loopBody_times E fmt j s = Inr sj \<Longrightarrow>
     attempts sj = attempts s + j \<and> quality_var sj = quality_var s - 15 * int j"
proof (induction j arbitrary: s)
  case 0
  then show ?case by simp
next
  case (Suc j)
  from Suc.prems obtain s1 where b: "loopBody E fmt s = Inr s1"
    and r: "loopBody_times E fmt j s1 = Inr sj"
    by (auto split: sum.splits)
  from Suc.IH [OF r] loopBody_attempts [OF b] show ?case by simp
qed


text \<open>
  What holds of the size-fitting stage for every codec. When \<open>targetSizeKB\<close> is
  set (and not zero) and the first encode is larger than \<open>targetSizeKB * 1024\<close>
  bytes, the result of the try block is the result of the loop started from the
  first encode with \<open>quality = options.quality || 80\<close> and \<open>attempts = 0\<close>.
  Whenever the loop ends normally, convertImage returns the last buffer produced;
  at most 5 passes were made; each pass lowered the quality by 15; on exit the
  size is at most the target, or the quality has reached 10 or below, or 5 passes
  were made; and before each pass the size was above the target and the quality
  above 10. The guard \<open>quality > 10\<close> is tested before the quality is lowered, so
  a pass may ask the encoder for a quality of 10 or below, also for 0 or less.
  The only error the loop can end with is one thrown by the codec in one of at
  most 5 passes. The loop does not depend on the codec's \<open>resize\<close> or on the
  constructor.
\<close>

lemma sizeFitLoop_normal_end:
  assumes "sharp E inputBuffer = Inr p0"
    and "resizeStage E opts p0 = Inr p1"
    and "encodeStage E opts p1 = Inr (p2, b)"
    and "targetSizeKB opts = Some t" and "t \<noteq> 0" and "int (length b) > t * 1024"
  shows "convertImage_body E inputBuffer opts
           = sizeFitLoop E (outputFormat opts) t (initLocals opts p2 b)
    \<and> (\<forall>s. sizeFitLoop E (outputFormat opts) t (initLocals opts p2 b) = Inr s \<longrightarrow>
          convertImage E inputBuffer opts = Inr (outputBuffer s)
          \<and> attempts s \<le> 5
          \<and> quality_var s = or_else (quality opts) 80 - 15 * int (attempts s)
          \<and> (int (length (outputBuffer s)) \<le> t * 1024 \<or> quality_var s \<le> 10 \<or> attempts s = 5)
          \<and> loopBody_times E (outputFormat opts) (attempts s) (initLocals opts p2 b) = Inr s
          \<and> (\<forall>j < attempts s. \<exists>sj.
                loopBody_times E (outputFormat opts) j (initLocals opts p2 b) = Inr sj
                \<and> quality_var sj = or_else (quality opts) 80 - 15 * int j
                \<and> int (length (outputBuffer sj)) > t * 1024 \<and> quality_var sj > 10))
    \<and> (\<forall>e. sizeFitLoop E (outputFormat opts) t (initLocals opts p2 b) = Inl e \<longrightarrow>
          (\<exists>j < 5. \<exists>sj.
             loopBody_times E (outputFormat opts) j (initLocals opts p2 b) = Inr sj
             \<and> loopBody E (outputFormat opts) sj = Inl e))
    \<and> (\<forall>r sh. sizeFitLoop (E\<lparr>resize := r, sharp := sh\<rparr>) (outputFormat opts) t
                  (initLocals opts p2 b)
               = sizeFitLoop E (outputFormat opts) t (initLocals opts p2 b))"
proof -
  let ?s0 = "initLocals opts p2 b"
  let ?fmt = "outputFormat opts"
  have a0: "attempts ?s0 = 0" and q0: "quality_var ?s0 = or_else (quality opts) 80"
    by (simp_all add: initLocals_def)
  have body: "convertImage_body E inputBuffer opts = sizeFitLoop E ?fmt t ?s0"
    using assms by (simp add: convertImage_body_def)
  have ok: "convertImage E inputBuffer opts = Inr (outputBuffer s)
          \<and> attempts s \<le> 5
          \<and> quality_var s = or_else (quality opts) 80 - 15 * int (attempts s)
          \<and> (int (length (outputBuffer s)) \<le> t * 1024 \<or> quality_var s \<le> 10 \<or> attempts s = 5)
          \<and> loopBody_times E ?fmt (attempts s) ?s0 = Inr s
          \<and> (\<forall>j < attempts s. \<exists>sj.
                loopBody_times E ?fmt j ?s0 = Inr sj
                \<and> quality_var sj = or_else (quality opts) 80 - 15 * int j
                \<and> int (length (outputBuffer sj)) > t * 1024 \<and> quality_var sj > 10)"
    if r: "sizeFitLoop E ?fmt t ?s0 = Inr s" for s
  proof -
    have c1: "convertImage E inputBuffer opts = Inr (outputBuffer s)"
      by (simp add: convertImage_def body r)
    have c2: "attempts s \<le> 5"
      using sizeFitLoop_bound [OF r] a0 by (simp add: maxAttempts_def)
    have c3: "quality_var s = or_else (quality opts) 80 - 15 * int (attempts s)"
      using sizeFitLoop_quality [OF r] a0 q0 by simp
    have c4: "int (length (outputBuffer s)) \<le> t * 1024 \<or> quality_var s \<le> 10 \<or> attempts s = 5"
      using sizeFitLoop_exit [OF r] c2 by (auto simp: loopGuard_def maxAttempts_def)
    have c5: "loopBody_times E ?fmt (attempts s) ?s0 = Inr s"
      using sizeFitLoop_times [OF r] a0 by simp
    have c6: "\<exists>sj. loopBody_times E ?fmt j ?s0 = Inr sj
                \<and> quality_var sj = or_else (quality opts) 80 - 15 * int j
                \<and> int (length (outputBuffer sj)) > t * 1024 \<and> quality_var sj > 10"
      if j: "j < attempts s" for j
    proof -
      from sizeFitLoop_times [OF r] a0 j obtain sj where
        t: "loopBody_times E ?fmt j ?s0 = Inr sj" and g: "loopGuard t sj" by auto
      from loopBody_times_vars [OF t] q0 have "quality_var sj = or_else (quality opts) 80 - 15 * int j"
        by simp
      with t g show ?thesis by (auto simp: loopGuard_def)
    qed
    from c1 c2 c3 c4 c5 c6 show ?thesis by blast
  qed
  have err: "\<exists>j < 5. \<exists>sj. loopBody_times E ?fmt j ?s0 = Inr sj \<and> loopBody E ?fmt sj = Inl e"
    if r: "sizeFitLoop E ?fmt t ?s0 = Inl e" for e
  proof -
    from sizeFitLoop_error [OF r] a0 obtain j sj where
      "j < maxAttempts" "loopBody_times E ?fmt j ?s0 = Inr sj" "loopBody E ?fmt sj = Inl e"
      by auto
    then show ?thesis by (auto simp: maxAttempts_def)
  qed
  from body ok err sizeFitLoop_indep show ?thesis by blast
qed


text \<open>
  C1, at inputs where the code departs from it. A 100 x 100 image is converted
  to webp with \<open>quality = 75\<close> and \<open>targetSizeKB = 1\<close>, which no quality reaches.
  The passes encode at 60, 45, 30 and 15; after the fourth pass the buffer has
  4506 bytes, still above 1024, the quality is 15 and four passes were made, so
  the guard of line 181 holds once more. Line 182 lowers the quality to 0, the
  encoder throws, and convertImage does not return the last buffer: it throws
  \<open>Image conversion failed: ...\<close>, and the handler answers with status 500. (The
  message of the library also names the value it received.) With the default
  quality 80 the fifth pass encodes at quality 5, below the floor of 10, and the
  buffer of that pass is returned.
\<close>

theorem size_fitting_quality_below_floor:
  "applyPreset (b_preset body_webp_75_1KB)
       (convertOptions_of test_env ''webp'' body_webp_75_1KB) = opts_webp_75_1KB
   \<and> encodeStage test_env opts_webp_75_1KB
         \<lparr>t_input = test_image 0 100 0 100 0 0, t_resize = None, t_output = None\<rparr>
       = Inr (webp_processor 75, webp_100x100 22500)
   \<and> encodeToBuffer test_env WEBP \<lparr>e_quality = 60, e_progressive = None\<rparr> (webp_processor 75)
       = Inr (webp_processor 60, webp_100x100 18000)
   \<and> encodeToBuffer test_env WEBP \<lparr>e_quality = 45, e_progressive = None\<rparr> (webp_processor 60)
       = Inr (webp_processor 45, webp_100x100 13500)
   \<and> encodeToBuffer test_env WEBP \<lparr>e_quality = 30, e_progressive = None\<rparr> (webp_processor 45)
       = Inr (webp_processor 30, webp_100x100 9000)
   \<and> encodeToBuffer test_env WEBP \<lparr>e_quality = 15, e_progressive = None\<rparr> (webp_processor 30)
       = Inr (webp_processor 15, webp_100x100 4500)
   \<and> int (length (webp_100x100 4500)) > 1 * 1024
   \<and> encoder test_env WEBP \<lparr>e_quality = 0, e_progressive = None\<rparr> (webp_processor 15)
       = Inl ''Expected integer between 1 and 100 for quality''
   \<and> convertImage test_env (test_image 0 100 0 100 0 0) opts_webp_75_1KB
       = Inl ''Image conversion failed: Expected integer between 1 and 100 for quality''
   \<and> convert_image test_env (req_of icon_100x100 body_webp_75_1KB) test_world0
       = (Error 500 ''Image conversion failed: Expected integer between 1 and 100 for quality'',
          test_world0)
   \<and> encodeToBuffer test_env WEBP \<lparr>e_quality = 5, e_progressive = None\<rparr> (webp_processor 20)
       = Inr (webp_processor 5, webp_100x100 1500)
   \<and> convertImage test_env (test_image 0 100 0 100 0 0) opts_webp_1KB
       = Inr (webp_100x100 1500)"
proof -
  let ?img = "test_image 0 100 0 100 0 0"
  have opts: "applyPreset (b_preset body_webp_75_1KB)
       (convertOptions_of test_env ''webp'' body_webp_75_1KB) = opts_webp_75_1KB"
    by (simp add: applyPreset_def convertOptions_of_def parseField_def truthy_str_def
          body_webp_75_1KB_def no_body_def test_env_def test_parseInt_def test_digit_def
          opts_webp_75_1KB_def toLowerCase_def lower_char_def)
  have first: "encodeStage test_env opts_webp_75_1KB
         \<lparr>t_input = ?img, t_resize = None, t_output = None\<rparr>
       = Inr (webp_processor 75, webp_100x100 22500)"
    by (simp add: convert_defs test_defs opts_webp_75_1KB_def webp_processor_def
          webp_100x100_def)
  have pass: "encodeToBuffer test_env WEBP \<lparr>e_quality = 60, e_progressive = None\<rparr>
                (webp_processor 75) = Inr (webp_processor 60, webp_100x100 18000)"
    "encodeToBuffer test_env WEBP \<lparr>e_quality = 45, e_progressive = None\<rparr>
                (webp_processor 60) = Inr (webp_processor 45, webp_100x100 13500)"
    "encodeToBuffer test_env WEBP \<lparr>e_quality = 30, e_progressive = None\<rparr>
                (webp_processor 45) = Inr (webp_processor 30, webp_100x100 9000)"
    "encodeToBuffer test_env WEBP \<lparr>e_quality = 15, e_progressive = None\<rparr>
                (webp_processor 30) = Inr (webp_processor 15, webp_100x100 4500)"
    "encodeToBuffer test_env WEBP \<lparr>e_quality = 5, e_progressive = None\<rparr>
                (webp_processor 20) = Inr (webp_processor 5, webp_100x100 1500)"
    by (simp_all add: encodeToBuffer_def test_defs webp_processor_def webp_100x100_def)
  have big: "int (length (webp_100x100 4500)) > 1 * 1024"
    by (simp add: webp_100x100_def)
  have throws: "encoder test_env WEBP \<lparr>e_quality = 0, e_progressive = None\<rparr>
                  (webp_processor 15) = Inl ''Expected integer between 1 and 100 for quality''"
    by (simp add: test_env_def)
  have conv: "convertImage test_env ?img opts_webp_75_1KB
       = Inl ''Image conversion failed: Expected integer between 1 and 100 for quality''"
    by (simp add: convertImage_def convertImage_body_def sizeFitLoop.simps convert_defs
          test_defs opts_webp_75_1KB_def)
  have info: "getImageInfo test_env (f_buffer icon_100x100)
      = Inr \<lparr>i_width = 100, i_height = 100, i_format = ''jpeg'', i_size = 2006,
             i_hasAlpha = False, i_aspectRatio = Fin 1\<rparr>"
    by (simp add: getImageInfo_def js_div_def test_defs icon_100x100_def)
  have buf: "f_buffer icon_100x100 = ?img"
    by (simp add: icon_100x100_def)
  have conv': "convertImage test_env (f_buffer icon_100x100) opts_webp_75_1KB
       = Inl ''Image conversion failed: Expected integer between 1 and 100 for quality''"
    using conv buf by simp
  have bo: "b_outputFormat body_webp_75_1KB = Some ''webp''"
    by (simp add: body_webp_75_1KB_def)
  have handler: "convert_image test_env (req_of icon_100x100 body_webp_75_1KB) test_world0
       = (Error 500 ''Image conversion failed: Expected integer between 1 and 100 for quality'',
          test_world0)"
    by (simp add: convert_image_def convertAndStore_def req_of_def bo truthy_str_def
          info opts conv' Let_def)
  have dflt: "convertImage test_env ?img opts_webp_1KB = Inr (webp_100x100 1500)"
    by (simp add: convertImage_def convertImage_body_def sizeFitLoop.simps convert_defs
          test_defs opts_webp_1KB_def webp_100x100_def)
  from opts first pass big throws conv handler dflt show ?thesis by simp
qed

section \<open>The format dispatch\<close>


lemma loopBody_cong:
  assumes "\<And>q p b. reencode E f q p b = reencode E f' q p b"
  shows "loopBody E f s = loopBody E f' s"
  by (simp add: loopBody_def assms)

lemma sizeFitLoop_cong:
  assumes "\<And>q p b. reencode E f q p b = reencode E f' q p b"
  shows "sizeFitLoop E f t s = sizeFitLoop E f' t s"
  using assms
proof (induction E f t s rule: sizeFitLoop.induct)
  case (1 E fmt target s)
  have lb: "loopBody E fmt s = loopBody E f' s"
    by (rule loopBody_cong) (rule "1.prems")
  show ?case
  proof (cases "loopGuard target s")
    case True
    show ?thesis
    proof (cases "loopBody E fmt s")
      case (Inl e)
      then have "loopBody E f' s = Inl e" using lb by simp
      with True Inl show ?thesis
        by (simp add: sizeFitLoop.simps [of E _ target s])
    next
      case (Inr s1)
      then have "loopBody E f' s = Inr s1" using lb by simp
      with "1.IH" [OF True Inr "1.prems"] True Inr show ?thesis
        by (simp add: sizeFitLoop.simps [of E _ target s])
    qed
  next
    case False
    then show ?thesis by (simp add: sizeFitLoop.simps [of E _ target s])
  qed
qed

lemma toLowerCase_names [simp]:
  "toLowerCase ''jpeg'' = ''jpeg''" "toLowerCase ''jpg'' = ''jpg''"
  "toLowerCase ''png'' = ''png''" "toLowerCase ''webp'' = ''webp''"
  "toLowerCase ''avif'' = ''avif''" "toLowerCase ''tiff'' = ''tiff''"
  "toLowerCase ''JPG'' = ''jpg''" "toLowerCase ''TIFF'' = ''tiff''"
  by (simp_all add: toLowerCase_def lower_char_def)

lemma reencode_canonical:
  assumes "toLowerCase f = g" and "g \<in> {''jpeg'', ''jpg'', ''png'', ''webp'', ''avif'', ''tiff''}"
  shows "reencode E f q p b = reencode E (if g = ''jpg'' then ''jpeg'' else g) q p b"
  using assms by (auto simp: reencode_def)

lemma encodeStage_canonical:
  assumes "toLowerCase (outputFormat opts) = g"
    and "g \<in> {''jpeg'', ''jpg'', ''png'', ''webp'', ''avif'', ''tiff''}"
  shows "encodeStage E opts p = encodeStage E (opts\<lparr>outputFormat := (if g = ''jpg'' then ''jpeg'' else g)\<rparr>) p"
  using assms by (auto simp: encodeStage_def)

lemma resizeStage_outputFormat [simp]:
  "resizeStage E (opts\<lparr>outputFormat := f\<rparr>) p = resizeStage E opts p"
  by (simp add: resizeStage_def)

lemma initLocals_outputFormat [simp]:
  "initLocals (opts\<lparr>outputFormat := f\<rparr>) p b = initLocals opts p b"
  by (simp add: initLocals_def)

text \<open>
  C10. The format switch of convertImage compares the lower-cased name, and the
  name \<open>jpg\<close> shares the case of \<open>jpeg\<close>. So a request whose format lower-cases
  to one of \<open>jpeg\<close>, \<open>jpg\<close>, \<open>png\<close>, \<open>webp\<close>, \<open>avif\<close>, \<open>tiff\<close> is converted
  exactly like the request with the canonical lower-case name (\<open>jpeg\<close> for \<open>jpg\<close>),
  and for \<open>jpg\<close> or \<open>jpeg\<close> in any letter case the first encode is the jpeg
  encoder: names outside the five documented values, such as \<open>JPG\<close> and \<open>jpg\<close>,
  are converted to jpeg rather than rejected as unsupported.
\<close>

theorem format_dispatch_case_insensitive:
  assumes "toLowerCase (outputFormat opts) = g"
    and "g \<in> {''jpeg'', ''jpg'', ''png'', ''webp'', ''avif'', ''tiff''}"
  shows "convertImage E inputBuffer opts
           = convertImage E inputBuffer (opts\<lparr>outputFormat := (if g = ''jpg'' then ''jpeg'' else g)\<rparr>)
     \<and> (g = ''jpg'' \<or> g = ''jpeg'' \<longrightarrow>
          encodeStage E opts p
            = encodeToBuffer E JPEG
                \<lparr>e_quality = or_else (quality opts) 80, e_progressive = Some True\<rparr> p)"
proof -
  define c where "c = (if g = ''jpg'' then ''jpeg'' else g)"
  have loop: "sizeFitLoop E (outputFormat opts) t s = sizeFitLoop E c t s" for t s
    unfolding c_def by (rule sizeFitLoop_cong) (rule reencode_canonical [OF assms])
  have enc: "encodeStage E (opts\<lparr>outputFormat := c\<rparr>) q = encodeStage E opts q" for q
    unfolding c_def by (rule encodeStage_canonical [OF assms, symmetric])
  have "convertImage_body E inputBuffer opts
          = convertImage_body E inputBuffer (opts\<lparr>outputFormat := c\<rparr>)"
    by (simp add: convertImage_body_def enc loop Let_def
          split: sum.splits prod.splits option.splits)
  then have "convertImage E inputBuffer opts
           = convertImage E inputBuffer (opts\<lparr>outputFormat := (if g = ''jpg'' then ''jpeg'' else g)\<rparr>)"
    unfolding c_def by (simp only: convertImage_def)
  moreover have "g = ''jpg'' \<or> g = ''jpeg'' \<longrightarrow>
          encodeStage E opts p
            = encodeToBuffer E JPEG
                \<lparr>e_quality = or_else (quality opts) 80, e_progressive = Some True\<rparr> p"
    using assms(1) by (auto simp: encodeStage_def)
  ultimately show ?thesis by blast
qed


theorem format_dispatch_case_insensitive_witness:
  "toLowerCase (outputFormat opts_JPG) = ''jpg''
   \<and> convertImage test_env (test_image 0 100 0 100 0 0) opts_JPG
       = Inr ([0, 100, 0, 100, 0, 0] @ replicate 24000 0)
   \<and> convertImage test_env (test_image 0 100 0 100 0 0) opts_JPG
       = convertImage test_env (test_image 0 100 0 100 0 0) (opts_JPG\<lparr>outputFormat := ''jpeg''\<rparr>)"
proof -
  have h1: "toLowerCase (outputFormat opts_JPG) = ''jpg''"
    by (simp add: opts_JPG_def)
  have h2: "''jpg'' \<in> {''jpeg'', ''jpg'', ''png'', ''webp'', ''avif'', ''tiff''}"
    by simp
  have ev: "convertImage test_env (test_image 0 100 0 100 0 0) (opts_JPG\<lparr>outputFormat := ''jpeg''\<rparr>)
       = Inr ([0, 100, 0, 100, 0, 0] @ replicate 24000 0)"
    by (simp add: convertImage_def convertImage_body_def convert_defs test_defs opts_JPG_def)
  from format_dispatch_case_insensitive [OF h1 h2, of test_env "test_image 0 100 0 100 0 0"]
  have "convertImage test_env (test_image 0 100 0 100 0 0) opts_JPG
       = convertImage test_env (test_image 0 100 0 100 0 0) (opts_JPG\<lparr>outputFormat := ''jpeg''\<rparr>)"
    by simp
  with h1 ev show ?thesis by simp
qed

lemma tiff_loopBody:
  assumes "toLowerCase fmt = ''tiff''"
  shows "loopBody E fmt s
           = Inr \<lparr>processor = processor s, outputBuffer = outputBuffer s,
                  quality_var = quality_var s - 15, attempts = attempts s + 1\<rparr>"
  using assms by (simp add: loopBody_def reencode_def)

lemma tiff_sizeFitLoop:
  assumes "toLowerCase fmt = ''tiff''"
  shows "\<exists>s'. sizeFitLoop E fmt t s = Inr s' \<and> processor s' = processor s
            \<and> outputBuffer s' = outputBuffer s"
  using assms
proof (induction E fmt t s rule: sizeFitLoop.induct)
  case (1 E fmt target s)
  show ?case
  proof (cases "loopGuard target s")
    case True
    let ?s1 = "\<lparr>processor = processor s, outputBuffer = outputBuffer s,
                  quality_var = quality_var s - 15, attempts = attempts s + 1\<rparr>"
    have b: "loopBody E fmt s = Inr ?s1"
      by (rule tiff_loopBody [OF "1.prems"])
    from "1.IH" [OF True b "1.prems"] obtain s' where
      "sizeFitLoop E fmt target ?s1 = Inr s'" "processor s' = processor s"
      "outputBuffer s' = outputBuffer s" by auto
    with True b show ?thesis
      by (simp add: sizeFitLoop.simps [of E fmt target s])
  next
    case False
    then show ?thesis by (simp add: sizeFitLoop.simps [of E fmt target s])
  qed
qed

text \<open>
  C9. When the format is \<open>tiff\<close>, the switch inside the size-fitting loop has no
  matching case: whatever the target, the loop ends normally with the processor
  and the buffer it started with. So convertImage returns exactly the first tiff
  encode, made at \<open>options.quality || 80\<close>, and the processor is the one that
  encode left: no re-encode takes place.
\<close>

theorem tiff_never_reencoded:
  assumes "toLowerCase (outputFormat opts) = ''tiff''"
    and "sharp E inputBuffer = Inr p0"
    and "resizeStage E opts p0 = Inr p1"
    and "encodeToBuffer E TIFF
           \<lparr>e_quality = or_else (quality opts) 80, e_progressive = None\<rparr> p1 = Inr (p2, b)"
  shows "convertImage E inputBuffer opts = Inr b
     \<and> (\<exists>s. convertImage_body E inputBuffer opts = Inr s \<and> processor s = p2
            \<and> outputBuffer s = b)
     \<and> (\<forall>t s. \<exists>s'. sizeFitLoop E (outputFormat opts) t s = Inr s'
            \<and> processor s' = processor s \<and> outputBuffer s' = outputBuffer s)"
proof -
  have enc: "encodeStage E opts p1 = Inr (p2, b)"
    using assms(1,4) by (simp add: encodeStage_def)
  have loop: "\<exists>s'. sizeFitLoop E (outputFormat opts) t s = Inr s'
            \<and> processor s' = processor s \<and> outputBuffer s' = outputBuffer s" for t s
    by (rule tiff_sizeFitLoop [OF assms(1)])
  have body: "\<exists>s. convertImage_body E inputBuffer opts = Inr s \<and> processor s = p2
            \<and> outputBuffer s = b"
  proof (cases "targetSizeKB opts")
    case None
    with assms(2,3) enc show ?thesis
      by (simp add: convertImage_body_def initLocals_def)
  next
    case (Some t)
    from loop [of t "initLocals opts p2 b"] obtain s' where
      "sizeFitLoop E (outputFormat opts) t (initLocals opts p2 b) = Inr s'"
      "processor s' = p2" "outputBuffer s' = b"
      by (auto simp: initLocals_def)
    with Some assms(2,3) enc show ?thesis
      by (auto simp: convertImage_body_def initLocals_def Let_def)
  qed
  then have "convertImage E inputBuffer opts = Inr b"
    by (auto simp: convertImage_def)
  with body loop show ?thesis by blast
qed

theorem tiff_never_reencoded_witness:
  "toLowerCase (outputFormat opts_tiff_1KB) = ''tiff''
   \<and> int (length ([0, 100, 0, 100, 4, 0] @ replicate 24000 (0::8 word))) > 1 * 1024
   \<and> convertImage test_env (test_image 0 100 0 100 0 0) opts_tiff_1KB
       = Inr ([0, 100, 0, 100, 4, 0] @ replicate 24000 0)"
proof -
  let ?img = "test_image 0 100 0 100 0 0"
  let ?p0 = "\<lparr>t_input = ?img, t_resize = None, t_output = None\<rparr>"
  have h1: "toLowerCase (outputFormat opts_tiff_1KB) = ''tiff''"
    by (simp add: opts_tiff_1KB_def)
  have h2: "sharp test_env ?img = Inr ?p0"
    by (simp add: test_env_def test_image_def)
  have h3: "resizeStage test_env opts_tiff_1KB ?p0 = Inr ?p0"
    by (simp add: resizeStage_def opts_tiff_1KB_def truthy_def)
  have h4: "encodeToBuffer test_env TIFF
           \<lparr>e_quality = or_else (quality opts_tiff_1KB) 80, e_progressive = None\<rparr> ?p0
       = Inr (\<lparr>t_input = ?img, t_resize = None, t_output = Some (TIFF, 80)\<rparr>,
              [0, 100, 0, 100, 4, 0] @ replicate 24000 0)"
    by (simp add: convert_defs test_defs opts_tiff_1KB_def)
  from tiff_never_reencoded [OF h1 h2 h3 h4] h1 show ?thesis by simp
qed

section \<open>Image analysis\<close>

text \<open>
  C8. For every uploaded file that the codec decodes, the analysis succeeds and
  its \<open>recommendedFormat\<close> follows the table, in this order: \<open>png\<close> if the
  metadata has an alpha channel; else \<open>gif\<close> if the detected format is \<open>gif\<close>;
  else \<open>jpeg\<close> if width times height exceeds 1,000,000; else \<open>webp\<close>.
\<close>

theorem recommendedFormat_table:
  assumes "req_file req = Some f"
    and "sharp E (f_buffer f) = Inr p"
    and "metadata_of E p = Inr m"
  shows "\<exists>r. analyze_image E req = Json r
     \<and> hasTransparency r = (m_hasAlpha m = Some True)
     \<and> recommendedFormat r =
         (if m_hasAlpha m = Some True then ''png''
          else if m_format m = ''gif'' then ''gif''
          else if m_width m * m_height m > 1000000 then ''jpeg''
          else ''webp'')"
  using assms
  by (cases "m_hasAlpha m")
     (auto simp: analyze_image_def getImageInfo_def recommendFormat_def Let_def)

theorem recommendedFormat_table_witness:
  "metadata_of test_env \<lparr>t_input = f_buffer photo_2000x1000, t_resize = None, t_output = None\<rparr>
     = Inr \<lparr>m_width = 2000, m_height = 1000, m_format = ''jpeg'', m_hasAlpha = Some False\<rparr>
   \<and> (\<exists>r. analyze_image test_env (req_of photo_2000x1000 no_body) = Json r
          \<and> recommendedFormat r = ''jpeg'')"
proof -
  let ?p = "\<lparr>t_input = f_buffer photo_2000x1000, t_resize = None, t_output = None\<rparr>"
  have h1: "req_file (req_of photo_2000x1000 no_body) = Some photo_2000x1000"
    by (simp add: req_of_def)
  have h2: "sharp test_env (f_buffer photo_2000x1000) = Inr ?p"
    by (simp add: test_defs photo_2000x1000_def)
  have h3: "metadata_of test_env ?p
     = Inr \<lparr>m_width = 2000, m_height = 1000, m_format = ''jpeg'', m_hasAlpha = Some False\<rparr>"
    by (simp add: test_defs photo_2000x1000_def)
  from recommendedFormat_table [OF h1 h2 h3] h3 show ?thesis by auto
qed

lemma lower_char_idem [simp]: "lower_char (lower_char c) = lower_char c"
  by (simp add: lower_char_def)

lemma toLowerCase_idem [simp]: "toLowerCase (toLowerCase s) = toLowerCase s"
  by (simp add: toLowerCase_def)

lemma test_parseInt_16: "test_parseInt ''16'' = Some 16"
  by (simp add: test_parseInt_def test_digit_def)

section \<open>Presets\<close>

lemma applyPreset_known:
  assumes "map_of PRESET_SIZES key = Some (w, h)"
  shows "applyPreset (Some key) opts = opts\<lparr>width := Some w, height := Some h\<rparr>"
proof -
  have "key \<noteq> []" using assms by (auto simp: PRESET_SIZES_def)
  with assms show ?thesis by (simp add: applyPreset_def PRESET_SIZES_get_def)
qed

lemma applyPreset_instagram:
  "applyPreset (Some ''instagram'') opts = opts\<lparr>width := Some 1080, height := Some 1080\<rparr>"
  by (rule applyPreset_known) (simp add: PRESET_SIZES_def)

lemma applyPreset_not_a_property:
  assumes "map_of PRESET_SIZES key = None" and "key \<notin> set Object_prototype"
  shows "applyPreset (Some key) opts = opts"
  using assms by (simp add: applyPreset_def PRESET_SIZES_get_def)

lemma applyPreset_keeps_other_fields:
  "outputFormat (applyPreset preset opts) = outputFormat opts
   \<and> quality (applyPreset preset opts) = quality opts
   \<and> maintainAspectRatio (applyPreset preset opts) = maintainAspectRatio opts
   \<and> targetSizeKB (applyPreset preset opts) = targetSizeKB opts"
  by (simp add: applyPreset_def split: option.splits property.splits)

text \<open>
  C5, at an input where the code departs from it. The preset name
  \<open>constructor\<close> is not an entry of the preset table, so by the specification the
  request stays as it is. But \<open>PRESET_SIZES['constructor']\<close> is the inherited
  \<open>Object\<close> function, which is truthy and has no \<open>width\<close> or \<open>height\<close>: the
  code overwrites both with \<open>undefined\<close>, and the requested 300 x 200 is lost.
  (For the ten table entries and for names that are no property at all, the
  lemmas above show the behaviour the specification describes.)
\<close>

theorem preset_inherited_property_name:
  "map_of PRESET_SIZES ''constructor'' = None
   \<and> applyPreset (Some ''constructor'') opts_300x200
       = opts_300x200\<lparr>width := None, height := None\<rparr>
   \<and> width (applyPreset (Some ''constructor'') opts_300x200) \<noteq> width opts_300x200"
  by (simp add: applyPreset_def PRESET_SIZES_get_def PRESET_SIZES_def Object_prototype_def
        opts_300x200_def)


section \<open>Validation of the output format\<close>

lemma encodeStage_unsupported:
  assumes "toLowerCase (outputFormat opts) \<notin> {''jpeg'', ''jpg'', ''png'', ''webp'', ''avif'', ''tiff''}"
  shows "encodeStage E opts p = Inl (''Unsupported output format: '' @ outputFormat opts)"
  using assms by (simp add: encodeStage_def Let_def)

text \<open>
  C6, as stated, fails: a format name that is present but not supported passes
  the handler's check. The engine runs, its default case throws, and the handler
  answers with status 500 and the engine's message.
\<close>

theorem unsupported_format_counterexample:
  "convert_image test_env (req_of icon_100x100 body_bmp) test_world0
     = (Error 500 ''Image conversion failed: Unsupported output format: bmp'', test_world0)"
  by (simp add: convert_image_def convertAndStore_def convertImage_def convertImage_body_def
        getImageInfo_def convertOptions_of_def applyPreset_def parseField_def truthy_str_def
        convert_defs test_defs req_of_def icon_100x100_def body_bmp_def no_body_def)

text \<open>
  C6, amended. For a request with a file: when \<open>outputFormat\<close> is missing or
  empty, the handler answers 400 \<open>Output format is required\<close>, whatever the
  codec is, and leaves the world untouched (the engine is not consulted). When
  \<open>outputFormat\<close> is present but its lower-cased name is none of \<open>jpeg\<close>,
  \<open>jpg\<close>, \<open>png\<close>, \<open>webp\<close>, \<open>avif\<close>, \<open>tiff\<close>, the handler does not reject it:
  for a decodable file whose resize options the codec accepts, convertImage
  runs and throws, and the answer is status 500 with the message
  \<open>Image conversion failed: Unsupported output format: <name>\<close>.
\<close>

theorem outputFormat_validation:
  assumes "req_file req = Some f"
  shows "(\<not> truthy_str (b_outputFormat (body req)) \<longrightarrow>
            convert_image E req w = (Error 400 ''Output format is required'', w))
     \<and> (\<forall>fmt p m p1.
           b_outputFormat (body req) = Some fmt \<and> fmt \<noteq> []
           \<and> toLowerCase fmt \<notin> {''jpeg'', ''jpg'', ''png'', ''webp'', ''avif'', ''tiff''}
           \<and> sharp E (f_buffer f) = Inr p \<and> metadata_of E p = Inr m
           \<and> resizeStage E (applyPreset (b_preset (body req))
                              (convertOptions_of E fmt (body req))) p = Inr p1
           \<longrightarrow> convert_image E req w
                 = (Error 500 (''Image conversion failed: Unsupported output format: ''
                               @ toLowerCase fmt), w))"
proof (intro conjI allI impI)
  assume "\<not> truthy_str (b_outputFormat (body req))"
  with assms show "convert_image E req w = (Error 400 ''Output format is required'', w)"
    by (simp add: convert_image_def)
next
  fix fmt p m p1
  let ?opts = "applyPreset (b_preset (body req)) (convertOptions_of E fmt (body req))"
  assume a: "b_outputFormat (body req) = Some fmt \<and> fmt \<noteq> []
           \<and> toLowerCase fmt \<notin> {''jpeg'', ''jpg'', ''png'', ''webp'', ''avif'', ''tiff''}
           \<and> sharp E (f_buffer f) = Inr p \<and> metadata_of E p = Inr m
           \<and> resizeStage E ?opts p = Inr p1"
  have fmt: "outputFormat ?opts = toLowerCase fmt"
    using applyPreset_keeps_other_fields [of "b_preset (body req)"]
    by (simp add: convertOptions_of_def)
  have "encodeStage E ?opts p1 = Inl (''Unsupported output format: '' @ toLowerCase fmt)"
    using encodeStage_unsupported [of ?opts E p1] a fmt by simp
  with a have "convertImage E (f_buffer f) ?opts
      = Inl (''Image conversion failed: Unsupported output format: '' @ toLowerCase fmt)"
    by (simp add: convertImage_def convertImage_body_def)
  with a assms show "convert_image E req w
                 = (Error 500 (''Image conversion failed: Unsupported output format: ''
                               @ toLowerCase fmt), w)"
    by (simp add: convert_image_def convertAndStore_def getImageInfo_def truthy_str_def Let_def)
qed

theorem outputFormat_validation_witness:
  "req_file (req_of icon_100x100 no_body) = Some icon_100x100
   \<and> \<not> truthy_str (b_outputFormat (body (req_of icon_100x100 no_body)))
   \<and> convert_image test_env (req_of icon_100x100 no_body) test_world0
       = (Error 400 ''Output format is required'', test_world0)"
proof -
  have h: "req_file (req_of icon_100x100 no_body) = Some icon_100x100"
    by (simp add: req_of_def)
  have n: "\<not> truthy_str (b_outputFormat (body (req_of icon_100x100 no_body)))"
    by (simp add: req_of_def no_body_def truthy_str_def)
  from outputFormat_validation [OF h, of test_env test_world0] n h show ?thesis by simp
qed

section \<open>The reported final quality\<close>

lemma test_uuidv4:
  "uuidv4 test_env w = (''id'' @ replicate (next_id w) (CHR ''x''), w\<lparr>next_id := Suc (next_id w)\<rparr>)"
  by (simp add: test_env_def)

lemma test_writeFile:
  "writeFile test_env name b w = Inr (w\<lparr>temp_files := temp_files w @ [name]\<rparr>)"
  by (simp add: test_env_def)

lemma finalQuality_is_requested:
  assumes "convert_image E req w = (Json r, w')"
  shows "finalQuality r = parseField E (b_quality (body req)) (Some 80)"
proof -
  have q: "quality (applyPreset pr (convertOptions_of E fmt b)) = parseField E (b_quality b) (Some 80)"
    for pr fmt b
    using applyPreset_keeps_other_fields [of pr "convertOptions_of E fmt b"]
    by (simp add: convertOptions_of_def)
  from assms show ?thesis
    by (auto simp: convert_image_def convertAndStore_def Let_def q
          split: option.splits sum.splits prod.splits if_splits)
qed

text \<open>
  C2, at an input where the code departs from it. A 100 x 100 image is converted
  to webp with \<open>targetSizeKB = 16\<close> and no quality given. The first encode at
  quality 80 is too large, the loop re-encodes at 65 and then at 50, and the
  stored file is the encode at quality 50 (15006 bytes). The response reports
  \<open>finalQuality = 80\<close>: the handler reads \<open>convertOptions.quality\<close>, which the
  loop never writes (lemma \<open>finalQuality_is_requested\<close>).
\<close>

theorem finalQuality_after_size_fitting:
  "convertImage_body test_env (f_buffer icon_100x100)
       (applyPreset (b_preset body_webp_16KB) (convertOptions_of test_env ''webp'' body_webp_16KB))
     = Inr \<lparr>processor = webp_processor 50, outputBuffer = webp_100x100 15000,
            quality_var = 50, attempts = 2\<rparr>
   \<and> (case fst (convert_image test_env (req_of icon_100x100 body_webp_16KB) test_world0) of
         Json r \<Rightarrow> finalQuality r = Some 80 \<and> c_size (convertedFile r) = 15006
       | Error status msg \<Rightarrow> False)"
proof -
  have opts: "applyPreset (b_preset body_webp_16KB) (convertOptions_of test_env ''webp'' body_webp_16KB)
      = \<lparr>outputFormat = ''webp'', quality = Some 80, width = None, height = None,
         maintainAspectRatio = True, targetSizeKB = Some 16\<rparr>"
    by (simp add: applyPreset_def convertOptions_of_def parseField_def truthy_str_def
          body_webp_16KB_def no_body_def test_env_def test_parseInt_16)
  have body: "convertImage_body test_env (f_buffer icon_100x100)
       \<lparr>outputFormat = ''webp'', quality = Some 80, width = None, height = None,
         maintainAspectRatio = True, targetSizeKB = Some 16\<rparr>
     = Inr \<lparr>processor = webp_processor 50, outputBuffer = webp_100x100 15000,
            quality_var = 50, attempts = 2\<rparr>"
    by (simp add: convertImage_body_def sizeFitLoop.simps convert_defs test_defs
          icon_100x100_def webp_processor_def webp_100x100_def)
  have info1: "getImageInfo test_env (f_buffer icon_100x100)
      = Inr \<lparr>i_width = 100, i_height = 100, i_format = ''jpeg'', i_size = 2006,
             i_hasAlpha = False, i_aspectRatio = Fin 1\<rparr>"
    by (simp add: getImageInfo_def js_div_def test_defs icon_100x100_def)
  have info2: "getImageInfo test_env (webp_100x100 15000)
      = Inr \<lparr>i_width = 100, i_height = 100, i_format = ''webp'', i_size = 15006,
             i_hasAlpha = False, i_aspectRatio = Fin 1\<rparr>"
    by (simp add: getImageInfo_def js_div_def test_defs webp_100x100_def)
  have bo: "b_outputFormat body_webp_16KB = Some ''webp''"
    by (simp add: body_webp_16KB_def)
  have conv: "convertImage test_env (f_buffer icon_100x100)
       \<lparr>outputFormat = ''webp'', quality = Some 80, width = None, height = None,
         maintainAspectRatio = True, targetSizeKB = Some 16\<rparr> = Inr (webp_100x100 15000)"
    by (simp add: convertImage_def body)
  have "case fst (convert_image test_env (req_of icon_100x100 body_webp_16KB) test_world0) of
         Json r \<Rightarrow> finalQuality r = Some 80 \<and> c_size (convertedFile r) = 15006
       | Error status msg \<Rightarrow> False"
    by (simp add: convert_image_def convertAndStore_def req_of_def bo truthy_str_def
          info1 opts conv info2 test_uuidv4 test_writeFile Let_def)
  then show ?thesis by (simp add: opts body)
qed

section \<open>The batch loop\<close>


lemma convertAndStore_name:
  "convertAndStore E req f originalInfo fmt opts w = (Inr r, w') \<Longrightarrow>
     o_name (originalFile r) = originalname f"
  by (auto simp: convertAndStore_def Let_def split: sum.splits prod.splits)

lemma processFile_name:
  "processFile E req fmt st f w = (Inr r, w') \<Longrightarrow> o_name (originalFile r) = originalname f"
  by (auto simp: processFile_def split: sum.splits dest: convertAndStore_name)

lemma item_name_item_of:
  "item_name (item_of f (fst (processFile E req fmt st f w))) = originalname f"
proof (cases "processFile E req fmt st f w")
  case (Pair outcome w')
  then show ?thesis
    by (cases outcome) (auto simp: item_of_def dest: processFile_name)
qed

lemma length_itemOutcomes [simp]:
  "length (itemOutcomes E req fmt st fs w) = length fs"
  by (induction fs arbitrary: w) (auto split: prod.splits)

lemma names_itemOutcomes:
  "map item_name (itemOutcomes E req fmt st fs w) = map originalname fs"
proof (induction fs arbitrary: w)
  case Nil
  then show ?case by simp
next
  case (Cons f fs)
  obtain outcome w' where p: "processFile E req fmt st f w = (outcome, w')"
    by (cases "processFile E req fmt st f w")
  have "item_name (item_of f outcome) = originalname f"
    using item_name_item_of [of f E req fmt st w] p by simp
  with p Cons.IH [of w'] show ?case by simp
qed

lemma nth_itemOutcomes:
  "i < length fs \<Longrightarrow>
     \<exists>wi. itemOutcomes E req fmt st fs w ! i
             = item_of (fs ! i) (fst (processFile E req fmt st (fs ! i) wi))"
proof (induction fs arbitrary: w i)
  case Nil
  then show ?case by simp
next
  case (Cons f fs)
  obtain outcome w' where p: "processFile E req fmt st f w = (outcome, w')"
    by (cases "processFile E req fmt st f w")
  show ?case
  proof (cases i)
    case 0
    have "itemOutcomes E req fmt st (f # fs) w ! 0
            = item_of ((f # fs) ! 0) (fst (processFile E req fmt st ((f # fs) ! 0) w))"
      using p by simp
    with 0 show ?thesis by blast
  next
    case (Suc j)
    with Cons.prems have "j < length fs" by simp
    from Cons.IH [OF this, of w'] obtain wi where
      "itemOutcomes E req fmt st fs w' ! j
         = item_of (fs ! j) (fst (processFile E req fmt st (fs ! j) wi))" by blast
    with Suc p show ?thesis by auto
  qed
qed

lemma count_is_success:
  "length (filter is_success xs) + length (filter (\<lambda>x. \<not> is_success x) xs) = length xs"
  by (induction xs) auto

lemma length_error_lines:
  "length (List.map_filter error_line xs) = length (filter (\<lambda>x. \<not> is_success x) xs)"
proof (induction xs)
  case Nil
  then show ?case by (simp)
next
  case (Cons x xs)
  then show ?case by (cases x) (simp_all)
qed

lemma batchLoop_outcomes:
  "st_results (batchLoop E req fmt st fs s)
       = st_results s @ itemOutcomes E req fmt st fs (st_world s)
   \<and> st_totalProcessed (batchLoop E req fmt st fs s)
       = st_totalProcessed s
         + length (filter is_success (itemOutcomes E req fmt st fs (st_world s)))
   \<and> st_errors (batchLoop E req fmt st fs s)
       = st_errors s
         @ List.map_filter error_line (itemOutcomes E req fmt st fs (st_world s))"
proof (induction fs arbitrary: s)
  case Nil
  then show ?case by (simp)
next
  case (Cons f fs)
  obtain outcome w' where p: "processFile E req fmt st f (st_world s) = (outcome, w')"
    by (cases "processFile E req fmt st f (st_world s)")
  show ?case
  proof (cases outcome)
    case (Inl e)
    let ?next = "s\<lparr>st_errors := st_errors s @ [originalname f @ '': '' @ e],
               st_results := st_results s @ [Failed (originalname f) (f_size f) (mimetype f) e],
               st_world := w'\<rparr>"
    have step: "batchLoop E req fmt st (f # fs) s = batchLoop E req fmt st fs ?next"
      using p Inl by simp
    have out: "itemOutcomes E req fmt st (f # fs) (st_world s)
        = Failed (originalname f) (f_size f) (mimetype f) e # itemOutcomes E req fmt st fs w'"
      using p Inl by (simp add: item_of_def)
    from Cons.IH [of ?next] show ?thesis
      unfolding step out by (simp)
  next
    case (Inr r)
    let ?next = "s\<lparr>st_results := st_results s @ [Success r],
               st_totalProcessed := st_totalProcessed s + 1,
               st_world := w'\<rparr>"
    have step: "batchLoop E req fmt st (f # fs) s = batchLoop E req fmt st fs ?next"
      using p Inr by simp
    have out: "itemOutcomes E req fmt st (f # fs) (st_world s)
        = Success r # itemOutcomes E req fmt st fs w'"
      using p Inr by (simp add: item_of_def)
    from Cons.IH [of ?next] show ?thesis
      unfolding step out by (simp)
  qed
qed

text \<open>
  C4. For every batch request that passes validation (at least one file, settings
  with a non-empty \<open>outputFormat\<close>), whatever the codec does on each file, the
  handler answers with a report, never with an error: a failure in the try block
  of one file is caught and does not stop the loop. The report has one entry per
  file, in the order of the files, each carrying the original name of its file;
  entry \<open>i\<close> is \<open>Success\<close> with the result when the try block of file \<open>i\<close>
  returned, and \<open>Failed\<close> with the original name, size, type and the error message
  when it threw. \<open>totalErrors\<close> is the number \<open>M\<close> of failed entries,
  \<open>totalProcessed\<close> is \<open>N - M\<close>, the number of successful ones, and \<open>errors\<close>
  lists \<open>name: message\<close> for the failed entries, in order.
\<close>

theorem batch_report:
  assumes "req_files req \<noteq> []"
    and "requestSettings E (body req) = Object st"
    and "s_outputFormat st = Some fmt" and "fmt \<noteq> []"
  shows "\<exists>rep w'. convert_batch E req w = (Json rep, w')
     \<and> results rep = itemOutcomes E req fmt st (req_files req) w
     \<and> length (results rep) = length (req_files req)
     \<and> map item_name (results rep) = map originalname (req_files req)
     \<and> (\<forall>i < length (req_files req). \<exists>wi.
           results rep ! i
             = item_of (req_files req ! i)
                 (fst (processFile E req fmt st (req_files req ! i) wi)))
     \<and> totalErrors rep = length (filter (\<lambda>x. \<not> is_success x) (results rep))
     \<and> totalProcessed rep = length (req_files req) - totalErrors rep
     \<and> totalProcessed rep = length (filter is_success (results rep))
     \<and> errors rep = (if totalErrors rep = 0 then None
                      else Some (List.map_filter error_line (results rep)))"
proof -
  let ?init = "\<lparr>st_results = [], st_errors = [], st_totalProcessed = 0, st_world = w\<rparr>"
  let ?s = "batchLoop E req fmt st (req_files req) ?init"
  let ?out = "itemOutcomes E req fmt st (req_files req) w"
  let ?rep = "\<lparr>results = st_results ?s, totalProcessed = st_totalProcessed ?s,
               totalErrors = length (st_errors ?s),
               errors = (if length (st_errors ?s) > 0 then Some (st_errors ?s) else None)\<rparr>"
  have resp: "convert_batch E req w = (Json ?rep, st_world ?s)"
    using assms by (simp add: convert_batch_def Let_def)
  from batchLoop_outcomes [of E req fmt st "req_files req" ?init]
  have r: "st_results ?s = ?out"
    and t: "st_totalProcessed ?s = length (filter is_success ?out)"
    and e: "st_errors ?s = List.map_filter error_line ?out"
    by simp_all
  have c1: "results ?rep = ?out" using r by simp
  have c2: "length (results ?rep) = length (req_files req)" using r by simp
  have c3: "map item_name (results ?rep) = map originalname (req_files req)"
    using r by (simp add: names_itemOutcomes)
  have c4: "\<forall>i < length (req_files req). \<exists>wi.
           results ?rep ! i
             = item_of (req_files req ! i)
                 (fst (processFile E req fmt st (req_files req ! i) wi))"
    using r nth_itemOutcomes [of _ "req_files req" E req fmt st w] by simp
  have c5: "totalErrors ?rep = length (filter (\<lambda>x. \<not> is_success x) (results ?rep))"
    using r e by (simp add: length_error_lines)
  have c7: "totalProcessed ?rep = length (filter is_success (results ?rep))"
    using r t by simp
  have c6: "totalProcessed ?rep = length (req_files req) - totalErrors ?rep"
    using c5 c7 c2 count_is_success [of "results ?rep"] by linarith
  have c8: "errors ?rep = (if totalErrors ?rep = 0 then None
                      else Some (List.map_filter error_line (results ?rep)))"
    using r e by simp
  from resp c1 c2 c3 c4 c5 c6 c7 c8 show ?thesis by blast
qed

lemma batch_request_settings:
  "requestSettings test_env (body batch_request) = Object batch_settings"
  by (simp add: requestSettings_def settings_of_fields_def parseField_def truthy_str_def
        batch_request_def batch_settings_def no_body_def)

lemma batch_request_outcomes:
  "\<exists>r1 r3. itemOutcomes test_env batch_request ''webp'' batch_settings
       [icon_100x100, corrupt_file, photo_2000x1000] test_world0
     = [Success r1,
        Failed ''broken.png'' 3 ''image/png''
          ''Failed to get image info: Input buffer contains unsupported image format'',
        Success r3]"
  by (simp add: processFile_def convertAndStore_def convertImage_def convertImage_body_def
        getImageInfo_def batchOptions_def applyPreset_def item_of_def f_size_def
        convert_defs test_defs batch_settings_def icon_100x100_def corrupt_file_def
        photo_2000x1000_def test_world0_def Let_def)

theorem batch_report_witness:
  "req_files batch_request \<noteq> []
   \<and> requestSettings test_env (body batch_request) = Object batch_settings
   \<and> (\<exists>rep w'. convert_batch test_env batch_request test_world0 = (Json rep, w')
         \<and> map item_name (results rep) = [''icon.jpg'', ''broken.png'', ''photo.jpg'']
         \<and> results rep ! 1
             = Failed ''broken.png'' 3 ''image/png''
                 ''Failed to get image info: Input buffer contains unsupported image format''
         \<and> totalProcessed rep = 2 \<and> totalErrors rep = 1
         \<and> errors rep
             = Some [''broken.png: Failed to get image info: Input buffer contains unsupported image format''])"
proof -
  have h1: "req_files batch_request \<noteq> []"
    by (simp add: batch_request_def)
  have h3: "s_outputFormat batch_settings = Some ''webp''"
    by (simp add: batch_settings_def)
  have h4: "''webp'' \<noteq> []"
    by simp
  have files: "req_files batch_request = [icon_100x100, corrupt_file, photo_2000x1000]"
    by (simp add: batch_request_def)
  have names: "map originalname [icon_100x100, corrupt_file, photo_2000x1000]
      = [''icon.jpg'', ''broken.png'', ''photo.jpg'']"
    by (simp add: icon_100x100_def corrupt_file_def photo_2000x1000_def)
  from batch_request_outcomes obtain r1 r3 where
    out: "itemOutcomes test_env batch_request ''webp'' batch_settings
       [icon_100x100, corrupt_file, photo_2000x1000] test_world0
     = [Success r1,
        Failed ''broken.png'' 3 ''image/png''
          ''Failed to get image info: Input buffer contains unsupported image format'',
        Success r3]" by blast
  from batch_report [OF h1 batch_request_settings h3 h4, of test_world0]
  obtain rep w' where
    a: "convert_batch test_env batch_request test_world0 = (Json rep, w')"
    and b: "results rep = itemOutcomes test_env batch_request ''webp'' batch_settings
               (req_files batch_request) test_world0"
    and c: "map item_name (results rep) = map originalname (req_files batch_request)"
    and d: "totalErrors rep = length (filter (\<lambda>x. \<not> is_success x) (results rep))"
    and e: "totalProcessed rep = length (req_files batch_request) - totalErrors rep"
    and f: "errors rep = (if totalErrors rep = 0 then None
                      else Some (List.map_filter error_line (results rep)))"
    by blast
  have res: "results rep = [Success r1,
        Failed ''broken.png'' 3 ''image/png''
          ''Failed to get image info: Input buffer contains unsupported image format'',
        Success r3]"
    using b out files by simp
  have "map item_name (results rep) = [''icon.jpg'', ''broken.png'', ''photo.jpg'']"
    using c files names by simp
  moreover have "results rep ! 1
             = Failed ''broken.png'' 3 ''image/png''
                 ''Failed to get image info: Input buffer contains unsupported image format''"
    using res by simp
  moreover have te: "totalErrors rep = 1"
    using d res by simp
  moreover have "totalProcessed rep = 2"
    using e te files by simp
  moreover have "errors rep
             = Some [''broken.png: Failed to get image info: Input buffer contains unsupported image format'']"
    using f te res by (simp)
  ultimately have "\<exists>rep w'. convert_batch test_env batch_request test_world0 = (Json rep, w')
         \<and> map item_name (results rep) = [''icon.jpg'', ''broken.png'', ''photo.jpg'']
         \<and> results rep ! 1
             = Failed ''broken.png'' 3 ''image/png''
                 ''Failed to get image info: Input buffer contains unsupported image format''
         \<and> totalProcessed rep = 2 \<and> totalErrors rep = 1
         \<and> errors rep
             = Some [''broken.png: Failed to get image info: Input buffer contains unsupported image format'']"
    using a by - (rule exI [of _ rep], rule exI [of _ w'], simp)
  with h1 batch_request_settings show ?thesis by simp
qed

section \<open>The resize stage\<close>

lemma encodeToBuffer_pipeline:
  assumes "encodeToBuffer E f eo p = Inr (p', b)" and "encodes E p1 p"
  shows "encodes E p1 p' \<and> toBuffer E p' = Inr b"
  using assms
  by (auto simp: encodeToBuffer_def split: sum.splits intro: encodes_more)

lemma encodeStage_pipeline:
  assumes "encodeStage E opts p = Inr (p', b)" and "encodes E p1 p"
  shows "encodes E p1 p' \<and> toBuffer E p' = Inr b"
  using assms
  by (auto simp: encodeStage_def Let_def split: if_splits dest: encodeToBuffer_pipeline)

lemma loopBody_pipeline:
  assumes "loopBody E fmt s = Inr s'"
    and "encodes E p1 (processor s)" and "toBuffer E (processor s) = Inr (outputBuffer s)"
  shows "encodes E p1 (processor s') \<and> toBuffer E (processor s') = Inr (outputBuffer s')"
proof -
  from assms(1) obtain p' b' where
    r: "reencode E fmt (quality_var s - 15) (processor s) (outputBuffer s) = Inr (p', b')"
    and s': "processor s' = p'" "outputBuffer s' = b'"
    by (auto simp: loopBody_def Let_def split: sum.splits)
  from r assms(2,3) have "encodes E p1 p' \<and> toBuffer E p' = Inr b'"
    by (auto simp: reencode_def Let_def split: if_splits dest: encodeToBuffer_pipeline)
  with s' show ?thesis by simp
qed

lemma sizeFitLoop_pipeline:
  assumes "sizeFitLoop E fmt t s = Inr s'"
    and "encodes E p1 (processor s)" and "toBuffer E (processor s) = Inr (outputBuffer s)"
  shows "encodes E p1 (processor s') \<and> toBuffer E (processor s') = Inr (outputBuffer s')"
  using assms
proof (induction E fmt t s rule: sizeFitLoop.induct)
  case (1 E fmt target s)
  show ?case
  proof (cases "loopGuard target s")
    case True
    with "1.prems"(1) obtain s1 where b: "loopBody E fmt s = Inr s1"
      and r: "sizeFitLoop E fmt target s1 = Inr s'"
      by (subst (asm) sizeFitLoop.simps) (auto split: sum.splits)
    from loopBody_pipeline [OF b "1.prems"(2,3)]
    have "encodes E p1 (processor s1)" "toBuffer E (processor s1) = Inr (outputBuffer s1)"
      by simp_all
    from "1.IH" [OF True b r this] show ?thesis .
  next
    case False
    with "1.prems" show ?thesis by (subst (asm) sizeFitLoop.simps) simp
  qed
qed

lemma convertImage_pipeline:
  assumes "convertImage E inputBuffer opts = Inr out"
  shows "\<exists>p0 p1 p. sharp E inputBuffer = Inr p0 \<and> resizeStage E opts p0 = Inr p1
            \<and> encodes E p1 p \<and> toBuffer E p = Inr out"
proof -
  from assms obtain s where body: "convertImage_body E inputBuffer opts = Inr s"
    and out: "outputBuffer s = out"
    by (auto simp: convertImage_def split: sum.splits)
  from body have "\<exists>p0 p1 p2 b. sharp E inputBuffer = Inr p0 \<and> resizeStage E opts p0 = Inr p1
     \<and> encodeStage E opts p1 = Inr (p2, b)
     \<and> (s = initLocals opts p2 b
          \<or> (\<exists>t. sizeFitLoop E (outputFormat opts) t (initLocals opts p2 b) = Inr s))"
    unfolding convertImage_body_def Let_def
    by (auto split: sum.splits option.splits if_splits)
  then obtain p0 p1 p2 b where
    a: "sharp E inputBuffer = Inr p0" and r: "resizeStage E opts p0 = Inr p1"
    and e: "encodeStage E opts p1 = Inr (p2, b)"
    and l: "s = initLocals opts p2 b
            \<or> (\<exists>t. sizeFitLoop E (outputFormat opts) t (initLocals opts p2 b) = Inr s)"
    by blast
  from encodeStage_pipeline [OF e encodes_none]
  have i: "encodes E p1 (processor (initLocals opts p2 b))"
    "toBuffer E (processor (initLocals opts p2 b)) = Inr (outputBuffer (initLocals opts p2 b))"
    by (simp_all add: initLocals_def)
  from l have "encodes E p1 (processor s) \<and> toBuffer E (processor s) = Inr (outputBuffer s)"
  proof
    assume "s = initLocals opts p2 b"
    with i show ?thesis by simp
  next
    assume "\<exists>t. sizeFitLoop E (outputFormat opts) t (initLocals opts p2 b) = Inr s"
    then obtain t where "sizeFitLoop E (outputFormat opts) t (initLocals opts p2 b) = Inr s" ..
    from sizeFitLoop_pipeline [OF this i] show ?thesis .
  qed
  with a r out show ?thesis by blast
qed

text \<open>
  C3, amended. For every conversion with \<open>maintainAspectRatio = false\<close> and a
  positive width and height given, the resize stage asks the codec for fit
  \<open>fill\<close> with exactly the requested width and height, and with
  \<open>withoutEnlargement: true\<close>. On a codec that honours these options the output
  is never larger than the source, and it has exactly the requested width and
  height when neither exceeds the source's.
\<close>

theorem forced_dimensions_without_enlargement:
  assumes "honours_resize E"
    and "maintainAspectRatio opts = False"
    and "width opts = Some w" and "height opts = Some h" and "0 < w" and "0 < h"
    and "sharp E inputBuffer = Inr p0" and "metadata_of E p0 = Inr mi"
    and "convertImage E inputBuffer opts = Inr out"
    and "sharp E out = Inr po" and "metadata_of E po = Inr mo"
  shows "resizeStage E opts p0
           = resize E \<lparr>r_width = Some w, r_height = Some h, r_fit = Fill,
                       withoutEnlargement = True\<rparr> p0
     \<and> m_width mo \<le> m_width mi \<and> m_height mo \<le> m_height mi
     \<and> (w \<le> int (m_width mi) \<and> h \<le> int (m_height mi)
          \<longrightarrow> m_width mo = nat w \<and> m_height mo = nat h)"
proof -
  let ?r = "\<lparr>r_width = Some w, r_height = Some h, r_fit = Fill, withoutEnlargement = True\<rparr>"
  have rs: "resizeStage E opts q = resize E ?r q" for q
    using assms(2-6) by (simp add: resizeStage_def truthy_def)
  from convertImage_pipeline [OF assms(9)] assms(7) obtain p1 p where
    r: "resizeStage E opts p0 = Inr p1" and e: "encodes E p1 p" and t: "toBuffer E p = Inr out"
    by auto
  from r rs have r': "resize E ?r p0 = Inr p1" by simp
  from assms(1) have c:
    "(withoutEnlargement ?r \<longrightarrow> m_width mo \<le> m_width mi \<and> m_height mo \<le> m_height mi)
     \<and> (\<forall>w' h'. r_fit ?r = Fill \<and> r_width ?r = Some w' \<and> r_height ?r = Some h'
                 \<and> 0 < w' \<and> 0 < h' \<and> w' \<le> int (m_width mi) \<and> h' \<le> int (m_height mi)
                 \<longrightarrow> m_width mo = nat w' \<and> m_height mo = nat h')"
    unfolding honours_resize_def
    using assms(7,8) r' e t assms(10,11) by blast
  from c have "m_width mo \<le> m_width mi \<and> m_height mo \<le> m_height mi" by simp
  moreover from c assms(5,6) have "w \<le> int (m_width mi) \<and> h \<le> int (m_height mi)
          \<longrightarrow> m_width mo = nat w \<and> m_height mo = nat h" by simp
  ultimately show ?thesis using rs by blast
qed


lemma test_encodes:
  "encodes test_env p p' \<Longrightarrow> t_input p' = t_input p \<and> t_resize p' = t_resize p"
proof (induction rule: encodes.induct)
  case (encodes_none p)
  then show ?case by simp
next
  case (encodes_more p p' f eo p'')
  then show ?case by (auto simp: test_env_def split: if_splits)
qed

lemma unat_byte: "unat (x :: 8 word) < 256"
  using unsigned_less [of x, where ?'a = nat] by simp

lemma test_metadata_bound:
  assumes "test_metadata b = Inr m"
  shows "m_width m < 65536 \<and> m_height m < 65536"
proof -
  from assms obtain wh wl hh hl :: "8 word" where
    m: "m_width m = unat wh * 256 + unat wl" "m_height m = unat hh * 256 + unat hl"
    by (auto simp: test_metadata_def split: list.splits if_splits)
  from unat_byte [of wh] unat_byte [of wl] unat_byte [of hh] unat_byte [of hl] m
  show ?thesis by linarith
qed

lemma dims_roundtrip:
  assumes "n < 65536"
  shows "unat (of_nat (n div 256) :: 8 word) * 256 + unat (of_nat (n mod 256) :: 8 word) = n"
proof -
  from assms have "n div 256 < 256" by simp
  then have "unat (of_nat (n div 256) :: 8 word) = n div 256"
    by (simp add: unat_of_nat)
  moreover have "unat (of_nat (n mod 256) :: 8 word) = n mod 256"
    by (simp add: unat_of_nat)
  ultimately show ?thesis by simp
qed

lemma test_output_metadata:
  assumes "test_toBuffer p = Inr out" and "test_metadata (t_input p) = Inr mi"
    and "test_metadata out = Inr mo"
    and "fst (test_dims (t_resize p) (m_width mi, m_height mi)) < 65536"
    and "snd (test_dims (t_resize p) (m_width mi, m_height mi)) < 65536"
  shows "m_width mo = fst (test_dims (t_resize p) (m_width mi, m_height mi))
           \<and> m_height mo = snd (test_dims (t_resize p) (m_width mi, m_height mi))"
  using assms
  by (auto simp: test_toBuffer_def test_metadata_def [of "_ # _"] Let_def dims_roundtrip
        split: option.splits if_splits)

lemma test_dims_noEnlarge:
  assumes "withoutEnlargement r"
  shows "fst (test_dims (Some r) (sw, sh)) \<le> sw \<and> snd (test_dims (Some r) (sw, sh)) \<le> sh"
  using assms
  by (cases "r_fit r")
     (auto simp: test_dims_def test_axis_def test_inside_def Let_def split: option.splits)

lemma test_dims_fill:
  assumes "r_fit r = Fill" and "r_width r = Some w" and "r_height r = Some h"
    and "w \<le> int sw" and "h \<le> int sh"
  shows "test_dims (Some r) (sw, sh) = (nat w, nat h)"
  using assms by (auto simp: test_dims_def test_axis_def)

lemma test_env_honours_resize: "honours_resize test_env"
  unfolding honours_resize_def
proof (intro allI impI)
  fix b p0 mi r p1 p out po mo
  assume a: "sharp test_env b = Inr p0 \<and> metadata_of test_env p0 = Inr mi
        \<and> resize test_env r p0 = Inr p1 \<and> encodes test_env p1 p \<and> toBuffer test_env p = Inr out
        \<and> sharp test_env out = Inr po \<and> metadata_of test_env po = Inr mo"
  then have p0: "t_input p0 = b" and mi: "test_metadata b = Inr mi"
    by (auto simp: test_env_def split: if_splits)
  from a p0 have p1: "t_input p1 = b" "t_resize p1 = Some r"
    by (auto simp: test_env_def)
  from a test_encodes [of p1 p] p1 have p: "t_input p = b" "t_resize p = Some r"
    by simp_all
  from a have tb: "test_toBuffer p = Inr out" and mo: "test_metadata out = Inr mo"
    by (auto simp: test_env_def split: if_splits)
  let ?d = "test_dims (Some r) (m_width mi, m_height mi)"
  from test_metadata_bound [OF mi] have bound: "m_width mi < 65536" "m_height mi < 65536"
    by simp_all
  have out: "m_width mo = fst ?d \<and> m_height mo = snd ?d"
    if "fst ?d < 65536" "snd ?d < 65536"
    using test_output_metadata [OF tb _ mo] p mi that by auto
  have c1: "m_width mo \<le> m_width mi \<and> m_height mo \<le> m_height mi" if w: "withoutEnlargement r"
  proof -
    from test_dims_noEnlarge [OF w, of "m_width mi" "m_height mi"]
    have le: "fst ?d \<le> m_width mi" "snd ?d \<le> m_height mi" by simp_all
    with bound have "fst ?d < 65536" "snd ?d < 65536" by simp_all
    from out [OF this] le show ?thesis by simp
  qed
  have c2: "m_width mo = nat w \<and> m_height mo = nat h"
    if f: "r_fit r = Fill \<and> r_width r = Some w \<and> r_height r = Some h
                 \<and> 0 < w \<and> 0 < h \<and> w \<le> int (m_width mi) \<and> h \<le> int (m_height mi)" for w h
  proof -
    from f have d: "?d = (nat w, nat h)" by (simp add: test_dims_fill)
    from f bound have "nat w < 65536" "nat h < 65536" by linarith+
    with d out show ?thesis by simp
  qed
  from c1 c2 show "(withoutEnlargement r \<longrightarrow>
               m_width mo \<le> m_width mi \<and> m_height mo \<le> m_height mi)
          \<and> (\<forall>w h. r_fit r = Fill \<and> r_width r = Some w \<and> r_height r = Some h
                 \<and> 0 < w \<and> 0 < h \<and> w \<le> int (m_width mi) \<and> h \<le> int (m_height mi)
                 \<longrightarrow> m_width mo = nat w \<and> m_height mo = nat h)"
    by blast
qed


lemma test_parseInt_200: "test_parseInt ''200'' = Some 200"
  by (simp add: test_parseInt_def test_digit_def)

text \<open>
  C3, as stated, fails when the requested dimensions exceed the source's. A
  100 x 100 image is converted with width 200, height 200 and
  \<open>maintainAspectRatio = false\<close>: the resize request carries
  \<open>withoutEnlargement = true\<close>, and the converted file is 100 x 100, not 200 x 200.
\<close>

theorem forced_dimensions_counterexample:
  "applyPreset (b_preset body_200x200_fill)
       (convertOptions_of test_env ''webp'' body_200x200_fill) = opts_fill 200 200
   \<and> resizeStage test_env (opts_fill 200 200)
         \<lparr>t_input = test_image 0 100 0 100 0 0, t_resize = None, t_output = None\<rparr>
       = Inr \<lparr>t_input = test_image 0 100 0 100 0 0,
              t_resize = Some \<lparr>r_width = Some 200, r_height = Some 200, r_fit = Fill,
                               withoutEnlargement = True\<rparr>,
              t_output = None\<rparr>
   \<and> (case fst (convert_image test_env (req_of icon_100x100 body_200x200_fill) test_world0) of
         Json r \<Rightarrow> o_width (originalFile r) = 100 \<and> o_height (originalFile r) = 100
                   \<and> c_width (convertedFile r) = 100 \<and> c_height (convertedFile r) = 100
       | Error status msg \<Rightarrow> False)"
proof -
  have opts: "applyPreset (b_preset body_200x200_fill)
       (convertOptions_of test_env ''webp'' body_200x200_fill) = opts_fill 200 200"
    by (simp add: applyPreset_def convertOptions_of_def parseField_def truthy_str_def
          body_200x200_fill_def no_body_def test_env_def test_parseInt_200 opts_fill_def)
  have rs: "resizeStage test_env (opts_fill 200 200)
         \<lparr>t_input = test_image 0 100 0 100 0 0, t_resize = None, t_output = None\<rparr>
       = Inr \<lparr>t_input = test_image 0 100 0 100 0 0,
              t_resize = Some \<lparr>r_width = Some 200, r_height = Some 200, r_fit = Fill,
                               withoutEnlargement = True\<rparr>,
              t_output = None\<rparr>"
    by (simp add: resizeStage_def truthy_def opts_fill_def test_env_def)
  have conv: "convertImage test_env (f_buffer icon_100x100) (opts_fill 200 200)
      = Inr (webp_100x100 24000)"
    by (simp add: convertImage_def convertImage_body_def convert_defs test_defs
          icon_100x100_def opts_fill_def webp_100x100_def)
  have info1: "getImageInfo test_env (f_buffer icon_100x100)
      = Inr \<lparr>i_width = 100, i_height = 100, i_format = ''jpeg'', i_size = 2006,
             i_hasAlpha = False, i_aspectRatio = Fin 1\<rparr>"
    by (simp add: getImageInfo_def js_div_def test_defs icon_100x100_def)
  have info2: "getImageInfo test_env (webp_100x100 24000)
      = Inr \<lparr>i_width = 100, i_height = 100, i_format = ''webp'', i_size = 24006,
             i_hasAlpha = False, i_aspectRatio = Fin 1\<rparr>"
    by (simp add: getImageInfo_def js_div_def test_defs webp_100x100_def)
  have bo: "b_outputFormat body_200x200_fill = Some ''webp''"
    by (simp add: body_200x200_fill_def)
  have "case fst (convert_image test_env (req_of icon_100x100 body_200x200_fill) test_world0) of
         Json r \<Rightarrow> o_width (originalFile r) = 100 \<and> o_height (originalFile r) = 100
                   \<and> c_width (convertedFile r) = 100 \<and> c_height (convertedFile r) = 100
       | Error status msg \<Rightarrow> False"
    by (simp add: convert_image_def convertAndStore_def req_of_def bo truthy_str_def
          info1 opts conv info2 test_uuidv4 test_writeFile Let_def)
  with opts rs show ?thesis by simp
qed

theorem forced_dimensions_without_enlargement_witness:
  "honours_resize test_env
   \<and> metadata_of test_env \<lparr>t_input = test_image 0 100 0 100 0 0, t_resize = None, t_output = None\<rparr>
       = Inr \<lparr>m_width = 100, m_height = 100, m_format = ''jpeg'', m_hasAlpha = Some False\<rparr>
   \<and> convertImage test_env (test_image 0 100 0 100 0 0) (opts_fill 50 80)
       = Inr ([0, 50, 0, 80, 2, 0] @ replicate 24000 0)
   \<and> metadata_of test_env
         \<lparr>t_input = [0, 50, 0, 80, 2, 0] @ replicate 24000 0, t_resize = None, t_output = None\<rparr>
       = Inr \<lparr>m_width = 50, m_height = 80, m_format = ''webp'', m_hasAlpha = Some False\<rparr>"
proof -
  let ?img = "test_image 0 100 0 100 0 0"
  let ?out = "[0, 50, 0, 80, 2, 0] @ replicate 24000 (0::8 word)"
  let ?pi = "\<lparr>t_input = ?img, t_resize = None, t_output = None\<rparr>"
  let ?po = "\<lparr>t_input = ?out, t_resize = None, t_output = None\<rparr>"
  let ?mi = "\<lparr>m_width = 100, m_height = 100, m_format = ''jpeg'', m_hasAlpha = Some False\<rparr>"
  let ?mo = "\<lparr>m_width = 50, m_height = 80, m_format = ''webp'', m_hasAlpha = Some False\<rparr>"
  have h2: "maintainAspectRatio (opts_fill 50 80) = False"
    and h3: "width (opts_fill 50 80) = Some 50" and h4: "height (opts_fill 50 80) = Some 80"
    by (simp_all add: opts_fill_def)
  have h5: "(0::int) < 50" and h6: "(0::int) < 80"
    by simp_all
  have h7: "sharp test_env ?img = Inr ?pi"
    by (simp add: test_env_def test_image_def)
  have h8: "metadata_of test_env ?pi = Inr ?mi"
    by (simp add: test_defs)
  have h9: "convertImage test_env ?img (opts_fill 50 80) = Inr ?out"
    by (simp add: convertImage_def convertImage_body_def convert_defs test_defs opts_fill_def)
  have h10: "sharp test_env ?out = Inr ?po"
    by (simp add: test_env_def)
  have h11: "metadata_of test_env ?po = Inr ?mo"
    by (simp add: test_defs)
  from forced_dimensions_without_enlargement
         [OF test_env_honours_resize h2 h3 h4 h5 h6 h7 h8 h9 h10 h11]
  have "m_width ?mo = nat 50 \<and> m_height ?mo = nat 80" by simp
  with test_env_honours_resize h8 h9 h11 show ?thesis by blast
qed

end
